theory Spec2Isabelle
  imports Main "HOL-Library.Char_ord" "HOL-Library.List_Lexorder"
begin

section \<open>Strings of the host language\<close>

text \<open>
  Strings are lists of 8-bit characters (code units below 256). The classes below are the
  ones the regular expressions and string methods of the source use: \<open>\w\<close> is
  \<open>[A-Za-z0-9_]\<close>, \<open>\s\<close> and \<open>trim\<close> share one whitespace class (tab, line feed,
  vertical tab, form feed, carriage return, space, no-break space).
\<close>

definition is_word_char :: "char \<Rightarrow> bool" where
  "is_word_char c =
     (let n = (of_char c :: nat)
      in (48 \<le> n \<and> n \<le> 57) \<or> (65 \<le> n \<and> n \<le> 90) \<or> n = 95 \<or> (97 \<le> n \<and> n \<le> 122))"

definition is_space :: "char \<Rightarrow> bool" where
  "is_space c = (let n = (of_char c :: nat) in (9 \<le> n \<and> n \<le> 13) \<or> n = 32 \<or> n = 160)"

text \<open>\<open>String.prototype.toLowerCase\<close>, per code unit: A-Z and the Latin-1 capitals.\<close>

definition lower_char :: "char \<Rightarrow> char" where
  "lower_char c =
     (let n = (of_char c :: nat)
      in if (65 \<le> n \<and> n \<le> 90) \<or> (192 \<le> n \<and> n \<le> 222 \<and> n \<noteq> 215) then char_of (n + 32) else c)"

definition toLowerCase :: "string \<Rightarrow> string" where
  "toLowerCase s = map lower_char s"

text \<open>\<open>String.prototype.toUpperCase\<close>; the source applies it to denylist entries only,
  which are lower-case ASCII words, so only a-z are mapped.\<close>

definition upper_char :: "char \<Rightarrow> char" where
  "upper_char c =
     (let n = (of_char c :: nat) in if 97 \<le> n \<and> n \<le> 122 then char_of (n - 32) else c)"

definition toUpperCase :: "string \<Rightarrow> string" where
  "toUpperCase s = map upper_char s"

fun startsWith :: "string \<Rightarrow> string \<Rightarrow> bool" where
  "startsWith s [] = True"
| "startsWith [] (p # ps) = False"
| "startsWith (c # cs) (p # ps) = (c = p \<and> startsWith cs ps)"

fun includes_str :: "string \<Rightarrow> string \<Rightarrow> bool" where
  "includes_str [] sub = startsWith [] sub"
| "includes_str (c # cs) sub = (startsWith (c # cs) sub \<or> includes_str cs sub)"

definition trimEnd :: "string \<Rightarrow> string" where
  "trimEnd s = rev (dropWhile is_space (rev s))"

definition trim :: "string \<Rightarrow> string" where
  "trim s = trimEnd (dropWhile is_space s)"

definition digit_char :: "nat \<Rightarrow> char" where
  "digit_char d = char_of (48 + d)"

fun string_of_nat :: "nat \<Rightarrow> string" where
  "string_of_nat n =
     (if n < 10 then [digit_char n] else string_of_nat (n div 10) @ [digit_char (n mod 10)])"

section \<open>Query Gate: the lexical checks\<close>

definition MAX_ROWS :: nat where
  "MAX_ROWS = 500"

definition DISALLOWED_OPERATIONS :: "string list" where
  "DISALLOWED_OPERATIONS =
     [''insert'', ''update'', ''delete'', ''drop'', ''create'', ''alter'',
      ''truncate'', ''grant'', ''revoke'', ''copy'', ''call'', ''do'']"

text \<open>
  The assertion \<open>\b\<close> of the regular expression: it holds between two positions when
  exactly one of the neighbouring characters is a word character; the ends of the string
  count as non-word.
\<close>

definition word_opt :: "char option \<Rightarrow> bool" where
  "word_opt x = (case x of None \<Rightarrow> False | Some c \<Rightarrow> is_word_char c)"

definition is_boundary :: "char option \<Rightarrow> char option \<Rightarrow> bool" where
  "is_boundary prev nxt = (word_opt prev \<noteq> word_opt nxt)"

definition head_opt :: "string \<Rightarrow> char option" where
  "head_opt s = (case s of [] \<Rightarrow> None | c # _ \<Rightarrow> Some c)"

text \<open>
  \<open>new RegExp(`\\b${operation}\\b`)\<close> tried at one position: \<open>prev\<close> is the character
  left of the position, \<open>s\<close> the rest of the string from the position on.
\<close>

definition pattern_at :: "string \<Rightarrow> char option \<Rightarrow> string \<Rightarrow> bool" where
  "pattern_at operation prev s =
     (is_boundary prev (head_opt s) \<and> startsWith s operation \<and>
      is_boundary (if operation = [] then prev else Some (last operation))
        (head_opt (drop (length operation) s)))"

text \<open>\<open>pattern.test\<close>: the pattern is tried at every position, left to right.\<close>

fun pattern_from :: "string \<Rightarrow> char option \<Rightarrow> string \<Rightarrow> bool" where
  "pattern_from operation prev [] = pattern_at operation prev []"
| "pattern_from operation prev (c # cs) =
     (pattern_at operation prev (c # cs) \<or> pattern_from operation (Some c) cs)"

definition pattern_test :: "string \<Rightarrow> string \<Rightarrow> bool" where
  "pattern_test operation s = pattern_from operation None s"

definition containsDisallowedOperation :: "string \<Rightarrow> string option" where
  "containsDisallowedOperation query =
     (let normalizedQuery = toLowerCase query
      in map_option toUpperCase
           (List.find (\<lambda>operation. pattern_test operation normalizedQuery) DISALLOWED_OPERATIONS))"

text \<open>
  \<open>replace(/;?\s*$/, "")\<close>: the first position from the left at which an optional semicolon
  followed by whitespace reaches the end of the string; everything from there on is
  removed. When the greedy \<open>;?\<close> takes a semicolon and the rest is not all whitespace,
  backtracking to the empty alternative leaves the semicolon to \<open>\s*\<close>, which fails too.
\<close>

definition semi_space_tail :: "string \<Rightarrow> bool" where
  "semi_space_tail s =
     (case s of
        [] \<Rightarrow> True
      | c # cs \<Rightarrow> (c = CHR '';'' \<and> list_all is_space cs) \<or> list_all is_space (c # cs))"

fun strip_semi_space :: "string \<Rightarrow> string" where
  "strip_semi_space [] = []"
| "strip_semi_space (c # cs) = (if semi_space_tail (c # cs) then [] else c # strip_semi_space cs)"

definition ensureRowLimit :: "string \<Rightarrow> string" where
  "ensureRowLimit sqlQuery =
     (let normalizedQuery = toLowerCase sqlQuery;
          hasRowLimit = (includes_str normalizedQuery ''limit'' \<or> includes_str normalizedQuery ''fetch'')
      in if hasRowLimit then sqlQuery
         else strip_semi_space (trimEnd sqlQuery) @ '' LIMIT '' @ string_of_nat MAX_ROWS)"

section \<open>Asynchronous calls that may throw\<close>

text \<open>
  A value thrown in the host language is either an \<open>Error\<close> object with its message or
  anything else; the source tells them apart with \<open>instanceof Error\<close>.
\<close>

datatype thrown = ErrorObject string | OtherValue

text \<open>
  An awaited computation over a state \<open>'s\<close> either completes with a value or throws, and
  leaves a new state. \<open>bind_io\<close> is sequencing (\<open>await\<close>); \<open>try_catch\<close> is the
  statement of the same name.
\<close>

type_synonym ('s, 'a) io = "'s \<Rightarrow> (thrown + 'a) \<times> 's"

definition return_io :: "'a \<Rightarrow> ('s, 'a) io" where
  "return_io x = (\<lambda>s. (Inr x, s))"

definition bind_io :: "('s, 'a) io \<Rightarrow> ('a \<Rightarrow> ('s, 'b) io) \<Rightarrow> ('s, 'b) io" where
  "bind_io m f = (\<lambda>s. case m s of (Inl e, s') \<Rightarrow> (Inl e, s') | (Inr x, s') \<Rightarrow> f x s')"

definition try_catch :: "('s, 'a) io \<Rightarrow> (thrown \<Rightarrow> ('s, 'a) io) \<Rightarrow> ('s, 'a) io" where
  "try_catch m h = (\<lambda>s. case m s of (Inl e, s') \<Rightarrow> h e s' | (Inr x, s') \<Rightarrow> (Inr x, s'))"

section \<open>Query Gate: the warehouse and \<open>execute\<close>\<close>

text \<open>
  The warehouse driver is a collaborator: the record gives the outcome of each of its
  calls (\<open>None\<close>: the call resolves; \<open>Some e\<close>: it throws \<open>e\<close>). The statement text
  selects the outcome of \<open>executeStatement\<close> and \<open>fetchAll\<close>; \<open>client.close\<close> can be
  called twice in one invocation, so its outcome depends on how often it was called before.
  The trace records the calls that reached the driver, in order.
\<close>

datatype event =
    Connect
  | OpenSession
  | ExecuteStatement string
  | FetchAll
  | OperationClose
  | SessionClose
  | ClientClose

record 'r warehouse =
  connect_out :: "thrown option"
  openSession_out :: "thrown option"
  executeStatement_out :: "string \<Rightarrow> thrown option"
  fetchAll_out :: "string \<Rightarrow> thrown + 'r list"
  operation_close_out :: "thrown option"
  session_close_out :: "thrown option"
  client_close_out :: "nat \<Rightarrow> thrown option"

definition call_unit :: "event \<Rightarrow> thrown option \<Rightarrow> (event list, unit) io" where
  "call_unit ev out =
     (\<lambda>tr. ((case out of None \<Rightarrow> Inr () | Some e \<Rightarrow> Inl e), tr @ [ev]))"

definition call_value :: "event \<Rightarrow> thrown + 'a \<Rightarrow> (event list, 'a) io" where
  "call_value ev out = (\<lambda>tr. (out, tr @ [ev]))"

definition client_close :: "'r warehouse \<Rightarrow> (event list, unit) io" where
  "client_close w =
     (\<lambda>tr. call_unit ClientClose (client_close_out w (length (filter (\<lambda>ev. ev = ClientClose) tr))) tr)"

record 'r query_output =
  success :: bool
  rows :: "'r list option"
  rowCount :: "nat option"
  error :: "string option"

definition errorMessage :: "thrown \<Rightarrow> string" where
  "errorMessage e = (case e of ErrorObject m \<Rightarrow> m | OtherValue \<Rightarrow> ''Unknown Error Occurred'')"

text \<open>A string is truthy when it is neither \<open>null\<close> nor empty.\<close>

definition truthy :: "string option \<Rightarrow> bool" where
  "truthy x = (case x of None \<Rightarrow> False | Some s \<Rightarrow> s \<noteq> [])"

text \<open>The \<open>try\<close> block of \<open>execute\<close>, lines 91 to 122 of the tool.\<close>

definition try_block :: "'r warehouse \<Rightarrow> string \<Rightarrow> (event list, 'r query_output) io" where
  "try_block w queryWithLimit =
     bind_io (call_unit Connect (connect_out w)) (\<lambda>_.
     bind_io (call_unit OpenSession (openSession_out w)) (\<lambda>_.
     bind_io (call_unit (ExecuteStatement queryWithLimit)
                (executeStatement_out w queryWithLimit)) (\<lambda>_.
     bind_io (call_value FetchAll (fetchAll_out w queryWithLimit)) (\<lambda>rawRows.
     bind_io (call_unit OperationClose (operation_close_out w)) (\<lambda>_.
     bind_io (call_unit SessionClose (session_close_out w)) (\<lambda>_.
     bind_io (client_close w) (\<lambda>_.
     (let rows' = take MAX_ROWS rawRows
      in return_io \<lparr>success = True, rows = Some rows',
           rowCount = Some (length rows'), error = None\<rparr>))))))))"

text \<open>The \<open>catch\<close> block: a best-effort close whose own failure is swallowed.\<close>

definition catch_block :: "'r warehouse \<Rightarrow> thrown \<Rightarrow> (event list, 'r query_output) io" where
  "catch_block w err =
     bind_io (try_catch (client_close w) (\<lambda>_. return_io ())) (\<lambda>_.
     return_io \<lparr>success = False, rows = None, rowCount = None,
       error = Some (''Query execution failed: '' @ errorMessage err)\<rparr>)"

text \<open>
  \<open>execute\<close>. The two lexical checks run before the \<open>try\<close> statement; they are total
  functions on strings. \<open>new DBSQLClient\<close> only stores its options and calls the logger of
  this repository, which does not throw, so it is not a step that can fail.
\<close>

definition policy_message :: "string \<Rightarrow> string" where
  "policy_message disallowedOperation =
     disallowedOperation @ '' operations are not allowed. Only read-only queries are permitted.''"

definition execute :: "'r warehouse \<Rightarrow> string \<Rightarrow> (event list, 'r query_output) io" where
  "execute w sqlQuery =
     (let disallowedOperation = containsDisallowedOperation sqlQuery
      in if truthy disallowedOperation then
           return_io \<lparr>success = False, rows = None, rowCount = None,
             error = Some (policy_message (the disallowedOperation))\<rparr>
         else
           (let queryWithLimit = ensureRowLimit sqlQuery
            in try_catch (try_block w queryWithLimit) (catch_block w)))"

section \<open>Metadata Extractor: data model\<close>

record ColumnInfo =
  columnName :: string
  dataType :: string
  isNullable :: bool
  isPrimaryKey :: bool
  isForeignKey :: bool

record ForeignKeyInfo =
  fk_columnName :: string
  referencedTable :: string
  referencedColumn :: string

record EnumValue =
  ev_columnName :: string
  ev_values :: "string list"

record TableMetadata =
  tableName :: string
  columns :: "ColumnInfo list"
  primaryKeys :: "string list"
  foreignKeys :: "ForeignKeyInfo list"
  enumValues :: "EnumValue list"

text \<open>
  Rows as the driver hands them over. A field of a row object can be missing or
  \<open>null\<close>; the source guards \<open>col_name\<close> and \<open>data_type\<close> against that, so both are
  optional here.
\<close>

record DescribeTableRow =
  col_name :: "string option"
  data_type :: "string option"

record TablePropertyRow =
  prop_key :: string
  prop_value :: string

record config =
  catalog :: string
  schema_name :: string

text \<open>A statement as it is sent: its text and the \<open>maxRows\<close> option.\<close>

record request =
  statement :: string
  maxRows :: nat

definition fullTableName :: "config \<Rightarrow> string \<Rightarrow> string" where
  "fullTableName cfg t =
     ''`'' @ catalog cfg @ ''`.`'' @ schema_name cfg @ ''`.`'' @ t @ ''`''"

definition show_tables_request :: "config \<Rightarrow> request" where
  "show_tables_request cfg =
     \<lparr>statement = ''SHOW TABLES IN `'' @ catalog cfg @ ''`.`'' @ schema_name cfg @ ''`'',
      maxRows = 10000\<rparr>"

definition describe_request :: "config \<Rightarrow> string \<Rightarrow> request" where
  "describe_request cfg t =
     \<lparr>statement = ''DESCRIBE TABLE EXTENDED '' @ fullTableName cfg t, maxRows = 10000\<rparr>"

definition tblproperties_request :: "config \<Rightarrow> string \<Rightarrow> request" where
  "tblproperties_request cfg t =
     \<lparr>statement = ''SHOW TBLPROPERTIES '' @ fullTableName cfg t, maxRows = 10000\<rparr>"

definition distinct_request :: "config \<Rightarrow> string \<Rightarrow> string \<Rightarrow> request" where
  "distinct_request cfg t c =
     \<lparr>statement =
        ''SELECT DISTINCT `'' @ c @ ''` AS value'' @ [CHR 0x0A] @
        replicate 11 (CHR '' '') @ ''FROM '' @ fullTableName cfg t @ [CHR 0x0A] @
        replicate 10 (CHR '' '') @ ''WHERE `'' @ c @ ''` IS NOT NULL'' @ [CHR 0x0A] @
        replicate 10 (CHR '' '') @ ''LIMIT 20'',
      maxRows = 20\<rparr>"

section \<open>Metadata Extractor: parsing the catalog dump\<close>

text \<open>\<open>data_type || "string"\<close>: a missing or empty type falls back to \<open>string\<close>.\<close>

definition type_or_string :: "string option \<Rightarrow> string" where
  "type_or_string t = (case t of None \<Rightarrow> ''string'' | Some x \<Rightarrow> if x = [] then ''string'' else x)"

text \<open>
  The loop of \<open>getColumns\<close> over the fetched rows. \<open>!typedRow.col_name\<close> holds for a
  missing and for an empty name; both leave the loop, as a name starting with \<open>#\<close> does.
\<close>

fun getColumns_rows :: "DescribeTableRow list \<Rightarrow> ColumnInfo list" where
  "getColumns_rows [] = []"
| "getColumns_rows (typedRow # rest) =
     (case col_name typedRow of
        None \<Rightarrow> []
      | Some n \<Rightarrow>
          if n = [] \<or> startsWith n ''#'' then []
          else if trim n = [] then getColumns_rows rest
          else \<lparr>columnName = n, dataType = type_or_string (data_type typedRow),
                 isNullable = True, isPrimaryKey = False, isForeignKey = False\<rparr>
               # getColumns_rows rest)"

text \<open>\<open>value.split(",")\<close>: the pieces between the separators, empty pieces kept.\<close>

fun split_on :: "char \<Rightarrow> string \<Rightarrow> string list" where
  "split_on d [] = [[]]"
| "split_on d (c # cs) =
     (if c = d then [] # split_on d cs
      else (case split_on d cs of [] \<Rightarrow> [[c]] | x # xs \<Rightarrow> (c # x) # xs))"

fun getPrimaryKeys_rows :: "TablePropertyRow list \<Rightarrow> string list" where
  "getPrimaryKeys_rows [] = []"
| "getPrimaryKeys_rows (typedRow # rest) =
     (if prop_key typedRow = ''primaryKey'' \<or> prop_key typedRow = ''primary_key''
      then map trim (split_on (CHR '','') (prop_value typedRow))
      else getPrimaryKeys_rows rest)"

text \<open>
  \<open>/(\w+)\s*->\s*(\w+)\.(\w+)/\<close> tried at the start of \<open>s\<close>. Each greedy run is followed
  by a character outside its class, so the longest run is the only one that can succeed
  and backtracking finds nothing else.
\<close>

definition fk_match_at :: "string \<Rightarrow> (string \<times> string \<times> string) option" where
  "fk_match_at s =
     (let g1 = takeWhile is_word_char s;
          r1 = dropWhile is_space (dropWhile is_word_char s)
      in if g1 = [] \<or> \<not> startsWith r1 ''->'' then None
         else
           (let r2 = dropWhile is_space (drop 2 r1);
                g2 = takeWhile is_word_char r2
            in if g2 = [] then None
               else
                 (case dropWhile is_word_char r2 of
                    [] \<Rightarrow> None
                  | c # r3 \<Rightarrow>
                      (let g3 = takeWhile is_word_char r3
                       in if c = CHR ''.'' \<and> g3 \<noteq> [] then Some (g1, g2, g3) else None))))"

text \<open>\<open>String.prototype.match\<close> without the global flag: the leftmost match.\<close>

fun fk_match :: "string \<Rightarrow> (string \<times> string \<times> string) option" where
  "fk_match [] = fk_match_at []"
| "fk_match (c # cs) =
     (case fk_match_at (c # cs) of Some m \<Rightarrow> Some m | None \<Rightarrow> fk_match cs)"

definition mentions_foreign_key :: "string option \<Rightarrow> bool" where
  "mentions_foreign_key n = (case n of None \<Rightarrow> False | Some x \<Rightarrow> includes_str x ''Foreign Key'')"

fun getForeignKeys_rows :: "bool \<Rightarrow> DescribeTableRow list \<Rightarrow> ForeignKeyInfo list" where
  "getForeignKeys_rows inDetailSection [] = []"
| "getForeignKeys_rows inDetailSection (typedRow # rest) =
     (if col_name typedRow = Some ''# Detailed Table Information''
      then getForeignKeys_rows True rest
      else if inDetailSection \<and> mentions_foreign_key (col_name typedRow)
      then (case Option.bind (data_type typedRow) fk_match of
              Some (a, b, c) \<Rightarrow>
                \<lparr>fk_columnName = a, referencedTable = b, referencedColumn = c\<rparr>
                # getForeignKeys_rows inDetailSection rest
            | None \<Rightarrow> getForeignKeys_rows inDetailSection rest)
      else getForeignKeys_rows inDetailSection rest)"

definition textTypes :: "string list" where
  "textTypes = [''string'', ''text'', ''varchar'', ''char'']"

definition candidates :: "ColumnInfo list \<Rightarrow> ColumnInfo list" where
  "candidates cols = filter (\<lambda>c. toLowerCase (dataType c) \<in> set textTypes) cols"

text \<open>
  What one probe contributes: the non-null values, counted, and recorded in sorted order
  when there are between 2 and 10 of them. \<open>Array.prototype.sort\<close> without a comparator
  orders strings by their code units, which is the lexicographic order on \<open>char list\<close>.
\<close>

definition enum_of_probe :: "ColumnInfo \<Rightarrow> string option list \<Rightarrow> EnumValue list" where
  "enum_of_probe column result =
     (let vals = map the (filter (\<lambda>v. v \<noteq> None) result)
      in if length vals \<ge> 2 \<and> length vals \<le> 10
         then [\<lparr>ev_columnName = columnName column, ev_values = sort vals\<rparr>]
         else [])"

section \<open>Description Formatter\<close>

fun join :: "string \<Rightarrow> string list \<Rightarrow> string" where
  "join sep [] = []"
| "join sep [x] = x"
| "join sep (x # y # ys) = x @ sep @ join sep (y # ys)"

definition constraints :: "ColumnInfo \<Rightarrow> string list" where
  "constraints col =
     (if isPrimaryKey col then [''primary key''] else []) @
     (if isForeignKey col then [''foreign key''] else []) @
     (if \<not> isNullable col \<and> \<not> isPrimaryKey col then [''not null''] else [])"

definition columnDescription :: "ColumnInfo \<Rightarrow> string" where
  "columnDescription col =
     (let suffix = (if length (constraints col) > 0 then '', '' @ join '', '' (constraints col)
                    else [])
      in columnName col @ '' ('' @ dataType col @ suffix @ '')'')"

text \<open>The arrow of the foreign-key line (U+2192), as its three UTF-8 bytes.\<close>

definition arrow :: string where
  "arrow = [CHR 0xE2, CHR 0x86, CHR 0x92]"

definition fkDescription :: "string \<Rightarrow> ForeignKeyInfo \<Rightarrow> string" where
  "fkDescription t fk =
     t @ ''.'' @ fk_columnName fk @ '' '' @ arrow @ '' '' @
     referencedTable fk @ ''.'' @ referencedColumn fk"

definition enumDescription :: "EnumValue \<Rightarrow> string" where
  "enumDescription ev =
     ev_columnName ev @ '' can be '' @
     join '', '' (map (\<lambda>v. [CHR 0x27] @ v @ [CHR 0x27]) (ev_values ev))"

definition formatTableContent :: "TableMetadata \<Rightarrow> string" where
  "formatTableContent metadata =
     (let lines =
        [''Table: '' @ tableName metadata,
         ''Columns: '' @ join '', '' (map columnDescription (columns metadata))] @
        (if length (foreignKeys metadata) > 0
         then [''Foreign Keys: '' @
               join '', '' (map (fkDescription (tableName metadata)) (foreignKeys metadata))]
         else []) @
        (if length (primaryKeys metadata) > 0
         then [''Primary Keys: '' @ join '', '' (primaryKeys metadata)]
         else []) @
        (if length (enumValues metadata) > 0
         then [''Sample Values: '' @ join ''; '' (map enumDescription (enumValues metadata))]
         else [])
      in join [CHR 0x0A] lines)"

section \<open>Embedding Indexer: collaborators and state\<close>

text \<open>
  One record of the description store, and the state of an indexing run: the contents of
  the store and the calls made so far.
\<close>

record 'v embedding_record =
  schemaDescription :: string
  rec_tableName :: string
  embedding :: 'v

datatype index_event =
    WarehouseConnect
  | WarehouseOpenSession
  | StorePing
  | StoreDeleteAll
  | Statement request
  | Embed string
  | TransactionBegin
  | TransactionInsert string
  | TransactionCommit
  | TransactionRollback
  | WarehouseSessionClose
  | WarehouseClose
  | StoreEnd
  | ProcessExit nat

record 'v index_state =
  store :: "'v embedding_record list"
  events :: "index_event list"

text \<open>
  The outcomes of the collaborators. A statement's outcome stands for the whole of
  \<open>executeStatement\<close>, \<open>fetchAll\<close> and \<open>close\<close>: it throws when any of the three does.
  The two \<open>DESCRIBE TABLE EXTENDED\<close> calls of one table are separate calls with separate
  outcomes.
\<close>

record 'v index_env =
  wh_connect_out :: "thrown option"
  wh_openSession_out :: "thrown option"
  store_ping_out :: "thrown option"
  store_delete_out :: "thrown option"
  show_tables_out :: "request \<Rightarrow> thrown + string list"
  describe_columns_out :: "request \<Rightarrow> thrown + DescribeTableRow list"
  tblproperties_out :: "request \<Rightarrow> thrown + TablePropertyRow list"
  describe_foreign_out :: "request \<Rightarrow> thrown + DescribeTableRow list"
  distinct_out :: "request \<Rightarrow> thrown + string option list"
  embed_out :: "string \<Rightarrow> thrown + 'v"
  insert_out :: "'v embedding_record \<Rightarrow> thrown option"
  commit_out :: "thrown option"
  wh_session_close_out :: "thrown option"
  wh_close_out :: "thrown option"
  store_end_out :: "thrown option"

definition emit :: "index_event \<Rightarrow> 'v index_state \<Rightarrow> 'v index_state" where
  "emit ev s = s\<lparr>events := events s @ [ev]\<rparr>"

definition step_unit :: "index_event \<Rightarrow> thrown option \<Rightarrow> ('v index_state, unit) io" where
  "step_unit ev out =
     (\<lambda>s. ((case out of None \<Rightarrow> Inr () | Some e \<Rightarrow> Inl e), emit ev s))"

definition step_value :: "index_event \<Rightarrow> thrown + 'a \<Rightarrow> ('v index_state, 'a) io" where
  "step_value ev out = (\<lambda>s. (out, emit ev s))"

definition run_statement :: "(request \<Rightarrow> thrown + 'a) \<Rightarrow> request \<Rightarrow> ('v index_state, 'a) io" where
  "run_statement out req = step_value (Statement req) (out req)"

section \<open>Metadata Extractor: the probes\<close>

definition getTables :: "'v index_env \<Rightarrow> config \<Rightarrow> ('v index_state, string list) io" where
  "getTables env cfg = run_statement (show_tables_out env) (show_tables_request cfg)"

definition getColumns :: "'v index_env \<Rightarrow> config \<Rightarrow> string \<Rightarrow> ('v index_state, ColumnInfo list) io" where
  "getColumns env cfg t =
     bind_io (run_statement (describe_columns_out env) (describe_request cfg t))
       (\<lambda>result. return_io (getColumns_rows result))"

definition getPrimaryKeys :: "'v index_env \<Rightarrow> config \<Rightarrow> string \<Rightarrow> ('v index_state, string list) io" where
  "getPrimaryKeys env cfg t =
     try_catch
       (bind_io (run_statement (tblproperties_out env) (tblproperties_request cfg t))
          (\<lambda>result. return_io (getPrimaryKeys_rows result)))
       (\<lambda>_. return_io [])"

definition getForeignKeys ::
  "'v index_env \<Rightarrow> config \<Rightarrow> string \<Rightarrow> ('v index_state, ForeignKeyInfo list) io" where
  "getForeignKeys env cfg t =
     try_catch
       (bind_io (run_statement (describe_foreign_out env) (describe_request cfg t))
          (\<lambda>result. return_io (getForeignKeys_rows False result)))
       (\<lambda>_. return_io [])"

text \<open>The loop of \<open>detectEnumValues\<close> over the candidates; a failing probe is skipped.\<close>

fun detect_loop ::
  "'v index_env \<Rightarrow> config \<Rightarrow> string \<Rightarrow> ColumnInfo list \<Rightarrow> ('v index_state, EnumValue list) io" where
  "detect_loop env cfg t [] = return_io []"
| "detect_loop env cfg t (column # rest) =
     bind_io
       (try_catch
          (bind_io (run_statement (distinct_out env) (distinct_request cfg t (columnName column)))
             (\<lambda>result. return_io (enum_of_probe column result)))
          (\<lambda>_. return_io []))
       (\<lambda>found. bind_io (detect_loop env cfg t rest) (\<lambda>more. return_io (found @ more)))"

definition detectEnumValues ::
  "'v index_env \<Rightarrow> config \<Rightarrow> string \<Rightarrow> ColumnInfo list \<Rightarrow> ('v index_state, EnumValue list) io" where
  "detectEnumValues env cfg t cols = detect_loop env cfg t (candidates cols)"

text \<open>
  \<open>Promise.all\<close> of three calls: all three are started, in order, and the result is the
  triple of their values, or the first rejection. Only \<open>getColumns\<close> can reject, the two
  others catch their failures, so which rejection comes first in time plays no role.
\<close>

definition promise_all3 ::
  "('s, 'a) io \<Rightarrow> ('s, 'b) io \<Rightarrow> ('s, 'c) io \<Rightarrow> ('s, 'a \<times> 'b \<times> 'c) io" where
  "promise_all3 pa pb pc =
     (\<lambda>s. case pa s of (ra, s1) \<Rightarrow> (case pb s1 of (rb, s2) \<Rightarrow> (case pc s2 of (rc, s3) \<Rightarrow>
        ((case ra of Inl e \<Rightarrow> Inl e
          | Inr x \<Rightarrow> (case rb of Inl e \<Rightarrow> Inl e
             | Inr y \<Rightarrow> (case rc of Inl e \<Rightarrow> Inl e | Inr z \<Rightarrow> Inr (x, y, z)))), s3))))"

definition mark_keys :: "string list \<Rightarrow> ForeignKeyInfo list \<Rightarrow> ColumnInfo \<Rightarrow> ColumnInfo" where
  "mark_keys pks fks col =
     col\<lparr>isPrimaryKey := columnName col \<in> set pks,
         isForeignKey := columnName col \<in> set (map fk_columnName fks)\<rparr>"

definition extractTableMetadata ::
  "'v index_env \<Rightarrow> config \<Rightarrow> string \<Rightarrow> ('v index_state, TableMetadata) io" where
  "extractTableMetadata env cfg t =
     bind_io (promise_all3 (getColumns env cfg t) (getPrimaryKeys env cfg t)
                (getForeignKeys env cfg t))
       (\<lambda>(cols, pks, fks).
          (let cols' = map (mark_keys pks fks) cols
           in bind_io (detectEnumValues env cfg t cols')
                (\<lambda>evs. return_io \<lparr>tableName = t, columns = cols', primaryKeys = pks,
                                   foreignKeys = fks, enumValues = evs\<rparr>)))"

section \<open>Embedding Indexer: \<open>main\<close>\<close>

text \<open>The loop of \<open>main\<close> over the table names; it yields the records in table order.\<close>

fun table_loop ::
  "'v index_env \<Rightarrow> config \<Rightarrow> string list \<Rightarrow> ('v index_state, 'v embedding_record list) io" where
  "table_loop env cfg [] = return_io []"
| "table_loop env cfg (t # ts) =
     bind_io (extractTableMetadata env cfg t) (\<lambda>metadata.
     (let content = formatTableContent metadata
      in bind_io (step_value (Embed content) (embed_out env content)) (\<lambda>emb.
         bind_io (table_loop env cfg ts) (\<lambda>more.
         return_io (\<lparr>schemaDescription = content, rec_tableName = t, embedding = emb\<rparr>
                    # more)))))"

fun insert_loop :: "'v index_env \<Rightarrow> 'v embedding_record list \<Rightarrow> ('v index_state, unit) io" where
  "insert_loop env [] = return_io ()"
| "insert_loop env (r # rs) =
     bind_io (step_unit (TransactionInsert (rec_tableName r)) (insert_out env r))
       (\<lambda>_. insert_loop env rs)"

text \<open>
  \<open>db.transaction\<close>: the inserts become part of the store when the commit succeeds;
  a failing insert or commit rolls back, leaves the store as it was and rethrows.
\<close>

definition transaction :: "'v index_env \<Rightarrow> 'v embedding_record list \<Rightarrow> ('v index_state, unit) io" where
  "transaction env recs =
     (\<lambda>s. case insert_loop env recs (emit TransactionBegin s) of
             (Inl e, s1) \<Rightarrow> (Inl e, emit TransactionRollback s1)
           | (Inr _, s1) \<Rightarrow>
               (case commit_out env of
                  Some e \<Rightarrow> (Inl e, emit TransactionRollback s1)
                | None \<Rightarrow> (Inr (), emit TransactionCommit (s1\<lparr>store := store s1 @ recs\<rparr>))))"

definition delete_all :: "'v index_env \<Rightarrow> ('v index_state, unit) io" where
  "delete_all env =
     (\<lambda>s. case store_delete_out env of
             Some e \<Rightarrow> (Inl e, emit StoreDeleteAll s)
           | None \<Rightarrow> (Inr (), emit StoreDeleteAll (s\<lparr>store := []\<rparr>)))"

definition main_try :: "'v index_env \<Rightarrow> config \<Rightarrow> ('v index_state, unit) io" where
  "main_try env cfg =
     bind_io (step_unit WarehouseConnect (wh_connect_out env)) (\<lambda>_.
     bind_io (step_unit WarehouseOpenSession (wh_openSession_out env)) (\<lambda>_.
     bind_io (step_unit StorePing (store_ping_out env)) (\<lambda>_.
     bind_io (delete_all env) (\<lambda>_.
     bind_io (getTables env cfg) (\<lambda>tableNames.
     bind_io (table_loop env cfg tableNames) (\<lambda>embeddings.
     transaction env embeddings))))))"

definition main_finally :: "'v index_env \<Rightarrow> ('v index_state, unit) io" where
  "main_finally env =
     bind_io (step_unit WarehouseSessionClose (wh_session_close_out env)) (\<lambda>_.
     bind_io (step_unit WarehouseClose (wh_close_out env)) (\<lambda>_.
     step_unit StoreEnd (store_end_out env)))"

text \<open>
  How a run ends. The \<open>catch\<close> block calls \<open>process.exit(1)\<close>, which ends the process on
  the spot; the \<open>finally\<close> block runs when the \<open>try\<close> block completed (the session is
  then open, so it is closed first), and a failure in it rejects the promise of \<open>main\<close>.
  The progress lines written to the console are left out.
\<close>

datatype outcome = Resolved | Exited nat | Rejected thrown

definition main :: "'v index_env \<Rightarrow> config \<Rightarrow> 'v index_state \<Rightarrow> outcome \<times> 'v index_state" where
  "main env cfg s =
     (case main_try env cfg s of
        (Inl e, s1) \<Rightarrow> (Exited 1, emit (ProcessExit 1) s1)
      | (Inr _, s1) \<Rightarrow>
          (case main_finally env s1 of
             (Inl e, s2) \<Rightarrow> (Rejected e, s2)
           | (Inr _, s2) \<Rightarrow> (Resolved, s2)))"

section \<open>Notions of the specification\<close>


text \<open>A keyword occurs in a query as a substring, matched case-insensitively.\<close>

definition contains_ci :: "string \<Rightarrow> string \<Rightarrow> bool" where
  "contains_ci kw q = (\<exists>pre w post. q = pre @ w @ post \<and> toLowerCase w = kw)"

text \<open>A warehouse every call of which resolves, \<open>fetchAll\<close> with the given rows.\<close>

definition resolving :: "'r list \<Rightarrow> 'r warehouse" where
  "resolving rawRows =
     \<lparr>connect_out = None, openSession_out = None, executeStatement_out = (\<lambda>_. None),
      fetchAll_out = (\<lambda>_. Inr rawRows), operation_close_out = None,
      session_close_out = None, client_close_out = (\<lambda>_. None)\<rparr>"

text \<open>The column a row contributes.\<close>

definition column_of_row :: "DescribeTableRow \<Rightarrow> ColumnInfo" where
  "column_of_row r =
     \<lparr>columnName = (case col_name r of None \<Rightarrow> [] | Some n \<Rightarrow> n),
      dataType = type_or_string (data_type r),
      isNullable = True, isPrimaryKey = False, isForeignKey = False\<rparr>"

text \<open>The sentinel as the claim describes it: a name that starts with the marker character.\<close>

definition starts_with_marker :: "DescribeTableRow \<Rightarrow> bool" where
  "starts_with_marker r = (case col_name r of None \<Rightarrow> False | Some n \<Rightarrow> n \<noteq> [] \<and> hd n = CHR ''#'')"

text \<open>A blank name: missing, empty, or made of whitespace only.\<close>

definition blank_name :: "DescribeTableRow \<Rightarrow> bool" where
  "blank_name r = (case col_name r of None \<Rightarrow> True | Some n \<Rightarrow> list_all is_space n)"

text \<open>The listing as claim C5 words it: rows up to the first sentinel, blank rows skipped.\<close>

definition columns_as_claimed :: "DescribeTableRow list \<Rightarrow> ColumnInfo list" where
  "columns_as_claimed rs =
     map column_of_row (filter (\<lambda>r. \<not> blank_name r) (takeWhile (\<lambda>r. \<not> starts_with_marker r) rs))"

text \<open>What ends the listing in the source: a missing name, an empty name, or the marker.\<close>

definition ends_listing :: "DescribeTableRow \<Rightarrow> bool" where
  "ends_listing r = (case col_name r of None \<Rightarrow> True | Some n \<Rightarrow> n = [] \<or> hd n = CHR ''#'')"

text \<open>A name that is not empty and made of whitespace only.\<close>

definition whitespace_only_name :: "DescribeTableRow \<Rightarrow> bool" where
  "whitespace_only_name r = (case col_name r of None \<Rightarrow> False | Some n \<Rightarrow> n \<noteq> [] \<and> list_all is_space n)"

text \<open>The listing as the source computes it: rows up to the first missing, empty or marker
  name, whitespace-only names skipped.\<close>

definition columns_as_amended :: "DescribeTableRow list \<Rightarrow> ColumnInfo list" where
  "columns_as_amended rs =
     map column_of_row
       (filter (\<lambda>r. \<not> whitespace_only_name r) (takeWhile (\<lambda>r. \<not> ends_listing r) rs))"

text \<open>A column whose declared type is \<open>string\<close>, \<open>text\<close>, \<open>varchar\<close> or \<open>char\<close>, in any case.\<close>

definition is_text_type :: "ColumnInfo \<Rightarrow> bool" where
  "is_text_type c =
     (toLowerCase (dataType c) \<in> {''string'', ''text'', ''varchar'', ''char''})"

text \<open>The non-null values of a probe, in the order returned.\<close>

definition non_null :: "string option list \<Rightarrow> string list" where
  "non_null result = [v. Some v \<leftarrow> result]"

text \<open>What enum detection records for one column: nothing when its probe throws, and
  otherwise the sorted values when the probe returned between 2 and 10 non-null values. The
  probe is a \<open>SELECT DISTINCT\<close>, so the number of values is the number of distinct ones.\<close>

definition enum_contribution :: "'v index_env \<Rightarrow> config \<Rightarrow> string \<Rightarrow> ColumnInfo \<Rightarrow> EnumValue list" where
  "enum_contribution env cfg t c =
     (case distinct_out env (distinct_request cfg t (columnName c)) of
        Inl _ \<Rightarrow> []
      | Inr result \<Rightarrow>
          if 2 \<le> length (non_null result) \<and> length (non_null result) \<le> 10
          then [\<lparr>ev_columnName = columnName c, ev_values = sort (non_null result)\<rparr>]
          else [])"

text \<open>The calls that change the description store or belong to its transaction.\<close>

definition store_mutation :: "index_event \<Rightarrow> bool" where
  "store_mutation ev =
     (case ev of
        StoreDeleteAll \<Rightarrow> True
      | TransactionBegin \<Rightarrow> True
      | TransactionInsert _ \<Rightarrow> True
      | TransactionCommit \<Rightarrow> True
      | TransactionRollback \<Rightarrow> True
      | _ \<Rightarrow> False)"

text \<open>Between two states the store kept its contents and no store call was made.\<close>

definition store_untouched :: "'v index_state \<Rightarrow> 'v index_state \<Rightarrow> bool" where
  "store_untouched s s' =
     (store s' = store s \<and>
      (\<exists>evs. events s' = events s @ evs \<and> filter store_mutation evs = []))"

text \<open>The primary keys a property listing yields; a failed listing yields none.\<close>

definition primary_key_signal :: "thrown + TablePropertyRow list \<Rightarrow> string list" where
  "primary_key_signal out = (case out of Inl _ \<Rightarrow> [] | Inr ps \<Rightarrow> getPrimaryKeys_rows ps)"

text \<open>The foreign keys a catalog dump yields; a failed dump yields none.\<close>

definition foreign_key_signal :: "thrown + DescribeTableRow list \<Rightarrow> ForeignKeyInfo list" where
  "foreign_key_signal out = (case out of Inl _ \<Rightarrow> [] | Inr fs \<Rightarrow> getForeignKeys_rows False fs)"

text \<open>The metadata of a table whose column listing returned \<open>rs\<close>, each signal computed
  from the outcome of its own probe.\<close>

definition metadata_of ::
  "'v index_env \<Rightarrow> config \<Rightarrow> string \<Rightarrow> DescribeTableRow list \<Rightarrow> TableMetadata" where
  "metadata_of env cfg t rs =
     (let pks = primary_key_signal (tblproperties_out env (tblproperties_request cfg t));
          fks = foreign_key_signal (describe_foreign_out env (describe_request cfg t))
      in \<lparr>tableName = t,
          columns = map (mark_keys pks fks) (getColumns_rows rs),
          primaryKeys = pks,
          foreignKeys = fks,
          enumValues =
            concat (map (enum_contribution env cfg t) (filter is_text_type (getColumns_rows rs)))\<rparr>)"

text \<open>The record the indexer builds for one table, or the failure of its column listing or of
  its embedding.\<close>

definition record_of :: "'v index_env \<Rightarrow> config \<Rightarrow> string \<Rightarrow> thrown + 'v embedding_record" where
  "record_of env cfg t =
     (case describe_columns_out env (describe_request cfg t) of
        Inl e \<Rightarrow> Inl e
      | Inr rs \<Rightarrow>
          (let content = formatTableContent (metadata_of env cfg t rs)
           in case embed_out env content of
                Inl e \<Rightarrow> Inl e
              | Inr v \<Rightarrow> Inr \<lparr>schemaDescription = content, rec_tableName = t, embedding = v\<rparr>))"

text \<open>The records for a list of tables, or the first failure.\<close>

fun records_of :: "'v index_env \<Rightarrow> config \<Rightarrow> string list \<Rightarrow> thrown + 'v embedding_record list" where
  "records_of env cfg [] = Inr []"
| "records_of env cfg (t # ts) =
     (case record_of env cfg t of
        Inl e \<Rightarrow> Inl e
      | Inr r \<Rightarrow> (case records_of env cfg ts of Inl e \<Rightarrow> Inl e | Inr rs \<Rightarrow> Inr (r # rs)))"

text \<open>The state once the store is truncated and the tables are listed.\<close>

definition after_delete :: "config \<Rightarrow> 'v index_state \<Rightarrow> 'v index_state" where
  "after_delete cfg s =
     s\<lparr>store := [],
       events := events s @ [WarehouseConnect, WarehouseOpenSession, StorePing, StoreDeleteAll,
                             Statement (show_tables_request cfg)]\<rparr>"

section \<open>Example collaborators\<close>

text \<open>A row with the given name and the type \<open>int\<close>.\<close>

definition named_row :: "string \<Rightarrow> DescribeTableRow" where
  "named_row n = \<lparr>col_name = Some n, data_type = Some ''int''\<rparr>"

text \<open>A catalog dump: three columns, a whitespace-only row among them, the empty row and
  the detail section with one foreign key.\<close>

definition example_rows :: "DescribeTableRow list" where
  "example_rows =
     [\<lparr>col_name = Some ''id'', data_type = Some ''int''\<rparr>,
      \<lparr>col_name = Some ''status'', data_type = Some ''STRING''\<rparr>,
      \<lparr>col_name = Some ''  '', data_type = None\<rparr>,
      \<lparr>col_name = Some ''owner'', data_type = Some ''bigint''\<rparr>,
      \<lparr>col_name = Some '''', data_type = Some ''''\<rparr>,
      \<lparr>col_name = Some ''# Detailed Table Information'', data_type = Some ''''\<rparr>,
      \<lparr>col_name = Some ''Foreign Key fk_owner'', data_type = Some ''owner -> users.id''\<rparr>]"

text \<open>Collaborators every call of which succeeds, over the tables A, B and C.\<close>

definition example_env :: "nat index_env" where
  "example_env =
     \<lparr>wh_connect_out = None, wh_openSession_out = None, store_ping_out = None,
      store_delete_out = None,
      show_tables_out = (\<lambda>_. Inr [''A'', ''B'', ''C'']),
      describe_columns_out = (\<lambda>_. Inr example_rows),
      tblproperties_out = (\<lambda>_. Inr [\<lparr>prop_key = ''primaryKey'', prop_value = ''id''\<rparr>]),
      describe_foreign_out = (\<lambda>_. Inr example_rows),
      distinct_out = (\<lambda>_. Inr [Some ''open'', None, Some ''closed'']),
      embed_out = (\<lambda>c. Inr (length c)),
      insert_out = (\<lambda>_. None), commit_out = None,
      wh_session_close_out = None, wh_close_out = None, store_end_out = None\<rparr>"

definition example_config :: config where
  "example_config = \<lparr>catalog = ''main'', schema_name = ''ops''\<rparr>"

text \<open>A store that holds one record of an earlier run, and no call made yet.\<close>

definition example_state :: "nat index_state" where
  "example_state =
     \<lparr>store = [\<lparr>schemaDescription = ''Table: Z'', rec_tableName = ''Z'', embedding = 0\<rparr>],
      events = []\<rparr>"

definition status_column :: ColumnInfo where
  "status_column = \<lparr>columnName = ''status'', dataType = ''STRING'', isNullable = True,
     isPrimaryKey = False, isForeignKey = False\<rparr>"

text \<open>A primary-key column that is not nullable.\<close>

definition id_column :: ColumnInfo where
  "id_column = \<lparr>columnName = ''id'', dataType = ''int'', isNullable = False,
     isPrimaryKey = True, isForeignKey = False\<rparr>"

text \<open>The column listing of table B fails.\<close>

definition failing_env :: "nat index_env" where
  "failing_env =
     example_env\<lparr>describe_columns_out :=
       (\<lambda>req. if req = describe_request example_config ''B''
              then Inl (ErrorObject ''TABLE_OR_VIEW_NOT_FOUND'') else Inr example_rows)\<rparr>"

text \<open>The primary-key probe fails.\<close>

definition degraded_env :: "nat index_env" where
  "degraded_env =
     example_env\<lparr>tblproperties_out := (\<lambda>_. Inl (ErrorObject ''PERMISSION_DENIED''))\<rparr>"

text \<open>Every enum probe fails.\<close>

definition unprobed_env :: "nat index_env" where
  "unprobed_env = example_env\<lparr>distinct_out := (\<lambda>_. Inl OtherValue)\<rparr>"

section \<open>Properties of the string functions\<close>

lemma startsWith_iff: "startsWith s p \<longleftrightarrow> (\<exists>rest. s = p @ rest)"
  by (induction s p rule: startsWith.induct) auto

lemma includes_str_iff: "includes_str s sub \<longleftrightarrow> (\<exists>pre post. s = pre @ sub @ post)"
proof (induction s)
  case Nil
  then show ?case by (simp add: startsWith_iff)
next
  case (Cons c cs)
  show ?case
  proof
    assume "includes_str (c # cs) sub"
    then consider "startsWith (c # cs) sub" | "includes_str cs sub" by auto
    then show "\<exists>pre post. c # cs = pre @ sub @ post"
    proof cases
      case 1
      then obtain rest where "c # cs = sub @ rest" by (auto simp: startsWith_iff)
      then have "c # cs = [] @ sub @ rest" by simp
      then show ?thesis by blast
    next
      case 2
      with Cons obtain pre post where "cs = pre @ sub @ post" by blast
      then have "c # cs = (c # pre) @ sub @ post" by simp
      then show ?thesis by blast
    qed
  next
    assume "\<exists>pre post. c # cs = pre @ sub @ post"
    then obtain pre post where eq: "c # cs = pre @ sub @ post" by blast
    show "includes_str (c # cs) sub"
    proof (cases pre)
      case Nil
      with eq have "startsWith (c # cs) sub" by (simp add: startsWith_iff)
      then show ?thesis by simp
    next
      case (Cons a pre')
      with eq have "cs = pre' @ sub @ post" by simp
      then have "includes_str cs sub" using Cons.IH by blast
      then show ?thesis by simp
    qed
  qed
qed

lemma is_word_char_lower [simp]: "is_word_char (lower_char c) = is_word_char c"
  by (auto simp add: is_word_char_def lower_char_def Let_def)



lemma includes_lower_iff: "includes_str (toLowerCase q) kw \<longleftrightarrow> contains_ci kw q"
proof
  assume "includes_str (toLowerCase q) kw"
  then obtain pre' post' where "map lower_char q = pre' @ kw @ post'"
    by (auto simp: includes_str_iff toLowerCase_def)
  then obtain pre r where 1: "q = pre @ r" "map lower_char r = kw @ post'"
    by (metis map_eq_append_conv)
  then obtain w post where "r = w @ post" "map lower_char w = kw"
    by (metis map_eq_append_conv)
  with 1 show "contains_ci kw q"
    unfolding contains_ci_def toLowerCase_def by blast
next
  assume "contains_ci kw q"
  then obtain pre w post where "q = pre @ w @ post" "toLowerCase w = kw"
    unfolding contains_ci_def by blast
  then have "toLowerCase q = toLowerCase pre @ kw @ toLowerCase post"
    by (simp add: toLowerCase_def)
  then show "includes_str (toLowerCase q) kw"
    unfolding includes_str_iff by blast
qed








section \<open>Properties of the Query Gate\<close>

lemma catch_block_returns:
  "\<exists>tr'. catch_block w err tr =
     (Inr \<lparr>success = False, rows = None, rowCount = None,
        error = Some (''Query execution failed: '' @ errorMessage err)\<rparr>, tr')"
  by (simp add: catch_block_def bind_io_def try_catch_def return_io_def client_close_def
      call_unit_def split: option.splits)

lemma try_block_success:
  assumes "try_block w q tr = (Inr r, tr')"
  shows "\<exists>rawRows. fetchAll_out w q = Inr rawRows \<and>
           r = \<lparr>success = True, rows = Some (take MAX_ROWS rawRows),
                 rowCount = Some (length (take MAX_ROWS rawRows)), error = None\<rparr>"
  using assms
  by (auto simp add: try_block_def bind_io_def return_io_def client_close_def
      call_unit_def call_value_def Let_def split: option.splits sum.splits)

lemma try_block_trace:
  "set (snd (try_block w q tr)) \<subseteq> set tr \<union> {Connect, OpenSession, ExecuteStatement q, FetchAll, OperationClose, SessionClose, ClientClose}"
  by (auto simp add: try_block_def bind_io_def return_io_def client_close_def
      call_unit_def call_value_def Let_def split: option.splits sum.splits)

lemma try_block_all_ok:
  assumes "connect_out w = None" "openSession_out w = None" "executeStatement_out w q = None"
    "fetchAll_out w q = Inr rawRows" "operation_close_out w = None" "session_close_out w = None"
    "client_close_out w (length (filter (\<lambda>ev. ev = ClientClose) tr)) = None"
  shows "try_block w q tr = (Inr \<lparr>success = True, rows = Some (take MAX_ROWS rawRows),
                 rowCount = Some (length (take MAX_ROWS rawRows)), error = None\<rparr>,
      tr @ [Connect, OpenSession, ExecuteStatement q, FetchAll, OperationClose, SessionClose, ClientClose])"
  using assms
  by (simp add: try_block_def bind_io_def return_io_def client_close_def
      call_unit_def call_value_def Let_def)


lemma catch_block_trace:
  "set (snd (catch_block w err tr)) \<subseteq> set tr \<union> {ClientClose}"
  by (auto simp add: catch_block_def bind_io_def try_catch_def return_io_def client_close_def
      call_unit_def split: option.splits)

lemma execute_statement_event:
  assumes "ExecuteStatement s \<in> set (snd (execute w q []))"
  shows "s = ensureRowLimit q"
proof (cases "truthy (containsDisallowedOperation q)")
  case True
  with assms show ?thesis by (simp add: execute_def return_io_def)
next
  case False
  obtain res tr1 where t: "try_block w (ensureRowLimit q) [] = (res, tr1)"
    by (cases "try_block w (ensureRowLimit q) []") auto
  have tr1: "set tr1 \<subseteq> {Connect, OpenSession, ExecuteStatement (ensureRowLimit q), FetchAll,
      OperationClose, SessionClose, ClientClose}"
    using try_block_trace [of w "ensureRowLimit q" "[]"] t by simp
  show ?thesis
  proof (cases res)
    case (Inl e)
    with False t have "snd (execute w q []) = snd (catch_block w e tr1)"
      by (simp add: execute_def try_catch_def)
    with assms catch_block_trace [of w e tr1] tr1 show ?thesis by auto
  next
    case (Inr r)
    with False t have "snd (execute w q []) = tr1"
      by (simp add: execute_def try_catch_def)
    with assms tr1 show ?thesis by auto
  qed
qed



lemma execute_success:
  assumes "fst (execute w q tr) = Inr r" "success r"
  shows "\<exists>rawRows. fetchAll_out w (ensureRowLimit q) = Inr rawRows \<and>
           r = \<lparr>success = True, rows = Some (take MAX_ROWS rawRows),
                 rowCount = Some (length (take MAX_ROWS rawRows)), error = None\<rparr>"
proof (cases "truthy (containsDisallowedOperation q)")
  case True
  with assms show ?thesis by (auto simp add: execute_def return_io_def)
next
  case False
  obtain res tr1 where t: "try_block w (ensureRowLimit q) tr = (res, tr1)"
    by (cases "try_block w (ensureRowLimit q) tr") auto
  show ?thesis
  proof (cases res)
    case (Inl e)
    from catch_block_returns [of w e tr1] obtain tr2 where
      "catch_block w e tr1 = (Inr \<lparr>success = False, rows = None, rowCount = None,
        error = Some (''Query execution failed: '' @ errorMessage e)\<rparr>, tr2)" by blast
    with Inl t False assms show ?thesis by (auto simp add: execute_def try_catch_def)
  next
    case (Inr r')
    with t False assms have "r' = r" by (simp add: execute_def try_catch_def)
    with Inr t try_block_success [of w "ensureRowLimit q" tr r tr1]
    show ?thesis by blast
  qed
qed

lemma execute_all_ok:
  assumes "containsDisallowedOperation q = None"
    "connect_out w = None" "openSession_out w = None"
    "executeStatement_out w (ensureRowLimit q) = None"
    "fetchAll_out w (ensureRowLimit q) = Inr rawRows"
    "operation_close_out w = None" "session_close_out w = None"
    "client_close_out w 0 = None"
  shows "execute w q [] =
     (Inr \<lparr>success = True, rows = Some (take MAX_ROWS rawRows),
            rowCount = Some (length (take MAX_ROWS rawRows)), error = None\<rparr>,
      [Connect, OpenSession, ExecuteStatement (ensureRowLimit q), FetchAll, OperationClose,
       SessionClose, ClientClose])"
  using assms try_block_all_ok [of w "ensureRowLimit q" rawRows "[]"]
  by (simp add: execute_def try_catch_def truthy_def)

text \<open>
  C4. When the driver's \<open>fetchAll\<close> yields \<open>rawRows\<close>, of any length, a success result
  carries the first 500 of them in driver order, a row count equal to the number of rows
  carried, and at most 500 rows.
\<close>

theorem rows_capped:
  assumes "fetchAll_out w (ensureRowLimit q) = Inr rawRows"
    and "fst (execute w q tr) = Inr r" and "success r"
  shows "rows r = Some (take 500 rawRows) \<and> rowCount r = Some (length (take 500 rawRows)) \<and>
         length (take 500 rawRows) \<le> 500"
proof -
  from execute_success [OF assms(2,3)] assms(1)
  have "r = \<lparr>success = True, rows = Some (take MAX_ROWS rawRows),
                 rowCount = Some (length (take MAX_ROWS rawRows)), error = None\<rparr>"
    by auto
  then have "rows r = Some (take 500 rawRows)" "rowCount r = Some (length (take 500 rawRows))"
    by (simp_all add: MAX_ROWS_def)
  then show ?thesis by simp
qed

lemma no_denylisted_word_example: "containsDisallowedOperation ''SELECT * FROM orders'' = None"
  by code_simp

lemma execute_resolving_example:
  "execute (resolving rawRows) ''SELECT * FROM orders'' [] =
     (Inr \<lparr>success = True, rows = Some (take MAX_ROWS rawRows),
            rowCount = Some (length (take MAX_ROWS rawRows)), error = None\<rparr>,
      [Connect, OpenSession, ExecuteStatement (ensureRowLimit ''SELECT * FROM orders''),
       FetchAll, OperationClose, SessionClose, ClientClose])"
  by (rule execute_all_ok) (simp_all add: no_denylisted_word_example resolving_def)

text \<open>The driver returns 501 rows; 500 come back.\<close>

theorem rows_capped_witness:
  "fetchAll_out (resolving (replicate 501 (0::nat))) (ensureRowLimit ''SELECT * FROM orders'')
     = Inr (replicate 501 0) \<and>
   (\<exists>r. fst (execute (resolving (replicate 501 (0::nat))) ''SELECT * FROM orders'' []) = Inr r \<and>
      success r \<and> rows r = Some (replicate 500 0) \<and> rowCount r = Some 500)"
proof -
  let ?w = "resolving (replicate 501 (0::nat))"
  let ?r = "\<lparr>success = True, rows = Some (take MAX_ROWS (replicate 501 (0::nat))),
            rowCount = Some (length (take MAX_ROWS (replicate 501 (0::nat)))), error = None\<rparr>"
  have f: "fetchAll_out ?w (ensureRowLimit ''SELECT * FROM orders'') = Inr (replicate 501 0)"
    by (simp add: resolving_def)
  have e: "fst (execute ?w ''SELECT * FROM orders'' []) = Inr ?r"
    by (simp add: execute_resolving_example)
  have s: "success ?r" by simp
  from rows_capped [OF f e s] e s f show ?thesis by simp
qed


lemma drop_example:
  "execute w ''Select * from T; DROP TABLE x'' [] =
     (Inr \<lparr>success = False, rows = None, rowCount = None,
        error = Some ''DROP operations are not allowed. Only read-only queries are permitted.''\<rparr>,
      [])"
proof -
  have "containsDisallowedOperation ''Select * from T; DROP TABLE x'' = Some ''DROP''"
    by code_simp
  then show ?thesis
    by (simp add: execute_def truthy_def return_io_def policy_message_def)
qed

lemma ensureRowLimit_unchanged:
  assumes "contains_ci ''limit'' q \<or> contains_ci ''fetch'' q"
  shows "ensureRowLimit q = q"
  using assms by (auto simp add: ensureRowLimit_def Let_def includes_lower_iff)

text \<open>
  C2. \<open>SELECT * FROM orders\<close> contains neither \<open>limit\<close> nor \<open>fetch\<close> and becomes
  \<open>SELECT * FROM orders LIMIT 500\<close>. A query that contains \<open>limit\<close> or \<open>fetch\<close> as a
  substring, matched case-insensitively, is returned as it is, trailing semicolon and
  whitespace included, and it is the only statement \<open>execute\<close> sends to the warehouse.
\<close>

theorem row_limit_appended_or_kept:
  "ensureRowLimit ''SELECT * FROM orders'' = ''SELECT * FROM orders LIMIT 500'' \<and>
   \<not> contains_ci ''limit'' ''SELECT * FROM orders'' \<and>
   \<not> contains_ci ''fetch'' ''SELECT * FROM orders'' \<and>
   (contains_ci ''limit'' q \<or> contains_ci ''fetch'' q \<longrightarrow>
      ensureRowLimit q = q \<and>
      (\<forall>s. ExecuteStatement s \<in> set (snd (execute w q [])) \<longrightarrow> s = q))"
proof (intro conjI impI allI)
  show "ensureRowLimit ''SELECT * FROM orders'' = ''SELECT * FROM orders LIMIT 500''"
    by code_simp
  have "\<not> includes_str (toLowerCase ''SELECT * FROM orders'') ''limit''" by code_simp
  then show "\<not> contains_ci ''limit'' ''SELECT * FROM orders''"
    by (simp add: includes_lower_iff)
  have "\<not> includes_str (toLowerCase ''SELECT * FROM orders'') ''fetch''" by code_simp
  then show "\<not> contains_ci ''fetch'' ''SELECT * FROM orders''"
    by (simp add: includes_lower_iff)
next
  assume "contains_ci ''limit'' q \<or> contains_ci ''fetch'' q"
  then show "ensureRowLimit q = q" by (rule ensureRowLimit_unchanged)
next
  fix s
  assume h: "contains_ci ''limit'' q \<or> contains_ci ''fetch'' q"
    and "ExecuteStatement s \<in> set (snd (execute w q []))"
  then have "s = ensureRowLimit q" by (simp add: execute_statement_event)
  with h show "s = q" by (simp add: ensureRowLimit_unchanged)
qed

text \<open>\<open>SELECT * FROM orders LIMIT 10;\<close> is executed as it is.\<close>

theorem row_limit_appended_or_kept_witness:
  "contains_ci ''limit'' ''SELECT * FROM orders LIMIT 10;'' \<and>
   ensureRowLimit ''SELECT * FROM orders LIMIT 10;'' = ''SELECT * FROM orders LIMIT 10;'' \<and>
   ExecuteStatement ''SELECT * FROM orders LIMIT 10;''
     \<in> set (snd (execute (resolving [0::nat]) ''SELECT * FROM orders LIMIT 10;'' []))"
proof -
  have "includes_str (toLowerCase ''SELECT * FROM orders LIMIT 10;'') ''limit''" by code_simp
  then have h: "contains_ci ''limit'' ''SELECT * FROM orders LIMIT 10;''"
    by (simp add: includes_lower_iff)
  with row_limit_appended_or_kept [of "''SELECT * FROM orders LIMIT 10;''" "resolving [0::nat]"]
  have k: "ensureRowLimit ''SELECT * FROM orders LIMIT 10;'' = ''SELECT * FROM orders LIMIT 10;''"
    by blast
  have n: "containsDisallowedOperation ''SELECT * FROM orders LIMIT 10;'' = None" by code_simp
  have "execute (resolving [0::nat]) ''SELECT * FROM orders LIMIT 10;'' [] =
     (Inr \<lparr>success = True, rows = Some (take MAX_ROWS [0]),
            rowCount = Some (length (take MAX_ROWS [0::nat])), error = None\<rparr>,
      [Connect, OpenSession, ExecuteStatement (ensureRowLimit ''SELECT * FROM orders LIMIT 10;''),
       FetchAll, OperationClose, SessionClose, ClientClose])"
    by (rule execute_all_ok) (simp_all add: n resolving_def)
  with h k show ?thesis by simp
qed

section \<open>Properties of the column listing\<close>

lemma trimEnd_empty_iff: "trimEnd s = [] \<longleftrightarrow> list_all is_space s"
proof -
  have "dropWhile is_space (rev s) = [] \<longleftrightarrow> (\<forall>x \<in> set (rev s). is_space x)"
    by (rule dropWhile_eq_Nil_conv)
  then show ?thesis by (simp add: trimEnd_def list_all_iff)
qed

lemma trim_empty_iff: "trim s = [] \<longleftrightarrow> list_all is_space s"
proof -
  have "list_all is_space (dropWhile is_space s) \<longleftrightarrow> list_all is_space s"
    by (induction s) auto
  then show ?thesis by (simp add: trim_def trimEnd_empty_iff)
qed

lemma startsWith_hash: "startsWith n ''#'' \<longleftrightarrow> n \<noteq> [] \<and> hd n = CHR ''#''"
  by (cases n) auto

text \<open>
  C5, as amended. \<open>getColumns\<close> collects one column per row up to the first row whose
  name is missing, empty, or starts with \<open>#\<close>; each of the three ends the listing. A name
  that is not empty and consists of whitespace only is skipped and does not end it: the
  rows after it and before the end still appear.
\<close>

theorem getColumns_rows_amended: "getColumns_rows rs = columns_as_amended rs"
proof (induction rs)
  case Nil
  show ?case by (simp add: columns_as_amended_def)
next
  case (Cons r rs)
  show ?case
  proof (cases "col_name r")
    case None
    then show ?thesis by (simp add: columns_as_amended_def ends_listing_def)
  next
    case (Some n)
    show ?thesis
    proof (cases "n = [] \<or> hd n = CHR ''#''")
      case True
      with Some show ?thesis
        by (auto simp add: columns_as_amended_def ends_listing_def startsWith_hash)
    next
      case False
      with Some have ne: "\<not> ends_listing r" by (simp add: ends_listing_def)
      show ?thesis
      proof (cases "list_all is_space n")
        case True
        with Some False have "whitespace_only_name r" by (simp add: whitespace_only_name_def)
        with Some False True ne Cons.IH show ?thesis
          by (simp add: columns_as_amended_def startsWith_hash trim_empty_iff)
      next
        case nsp: False
        with Some have "\<not> whitespace_only_name r" by (simp add: whitespace_only_name_def)
        with Some False nsp ne Cons.IH show ?thesis
          by (simp add: columns_as_amended_def startsWith_hash trim_empty_iff column_of_row_def)
      qed
    qed
  qed
qed

text \<open>
  C5 as stated fails: a row with an empty name ends the listing, so the column \<open>b\<close>
  after it, before the sentinel, is not returned, while the claim's reading returns it.
\<close>

theorem blank_row_ends_listing_counterexample:
  "map columnName (getColumns_rows
      [named_row ''a'', named_row '''', named_row ''b'', named_row ''# Detailed Table Information''])
     = [''a''] \<and>
   map columnName (columns_as_claimed
      [named_row ''a'', named_row '''', named_row ''b'', named_row ''# Detailed Table Information''])
     = [''a'', ''b'']"
  by (simp add: named_row_def columns_as_claimed_def starts_with_marker_def blank_name_def
      column_of_row_def is_space_def trim_empty_iff)

text \<open>A whitespace-only row is skipped, the empty row ends the listing.\<close>

theorem getColumns_rows_amended_witness:
  "map columnName (getColumns_rows
      [named_row ''a'', named_row ''  '', named_row ''b'', named_row '''', named_row ''c''])
     = [''a'', ''b'']"
  unfolding getColumns_rows_amended
  by (simp add: named_row_def columns_as_amended_def ends_listing_def whitespace_only_name_def
      column_of_row_def is_space_def)

section \<open>Properties of enum detection and of the formatter\<close>

lemma non_null_eq: "map the (filter (\<lambda>v. v \<noteq> None) result) = non_null result"
  unfolding non_null_def by (induction result) (auto split: option.splits)

lemma enum_of_probe_eq:
  "enum_of_probe c result =
     (if 2 \<le> length (non_null result) \<and> length (non_null result) \<le> 10
      then [\<lparr>ev_columnName = columnName c, ev_values = sort (non_null result)\<rparr>]
      else [])"
  unfolding enum_of_probe_def non_null_eq by (simp add: Let_def)

lemma candidates_eq: "candidates cols = filter is_text_type cols"
proof -
  have "(\<lambda>c. toLowerCase (dataType c) \<in> set textTypes) = is_text_type"
    by (rule ext) (simp add: is_text_type_def textTypes_def)
  then show ?thesis by (simp add: candidates_def)
qed

lemma detect_loop_result:
  "\<exists>s'. detect_loop env cfg t cs s = (Inr (concat (map (enum_contribution env cfg t) cs)), s') \<and>
        store s' = store s"
proof (induction cs arbitrary: s)
  case Nil
  show ?case by (simp add: return_io_def)
next
  case (Cons c cs)
  let ?s1 = "emit (Statement (distinct_request cfg t (columnName c))) s"
  from Cons [of ?s1] obtain s' where
    r: "detect_loop env cfg t cs ?s1 = (Inr (concat (map (enum_contribution env cfg t) cs)), s')"
      "store s' = store ?s1" by blast
  have st: "store ?s1 = store s" by (simp add: emit_def)
  show ?case
  proof (cases "distinct_out env (distinct_request cfg t (columnName c))")
    case (Inl e)
    then have "enum_contribution env cfg t c = []" by (simp add: enum_contribution_def)
    with Inl r st show ?thesis
      by (simp add: bind_io_def try_catch_def return_io_def run_statement_def step_value_def)
  next
    case (Inr result)
    then have "enum_contribution env cfg t c = enum_of_probe c result"
      by (simp add: enum_contribution_def enum_of_probe_eq)
    with Inr r st show ?thesis
      by (simp add: bind_io_def try_catch_def return_io_def run_statement_def step_value_def)
  qed
qed

lemma detectEnumValues_result:
  "\<exists>s'. detectEnumValues env cfg t cols s =
       (Inr (concat (map (enum_contribution env cfg t) (filter is_text_type cols))), s') \<and>
     store s' = store s"
  unfolding detectEnumValues_def candidates_eq by (rule detect_loop_result)

lemma probe_statement_limit:
  "\<exists>pre. statement (distinct_request cfg t c) = pre @ ''LIMIT 20''"
proof -
  let ?pre = "''SELECT DISTINCT `'' @ c @ ''` AS value'' @ [CHR 0x0A] @
        replicate 11 (CHR '' '') @ ''FROM '' @ fullTableName cfg t @ [CHR 0x0A] @
        replicate 10 (CHR '' '') @ ''WHERE `'' @ c @ ''` IS NOT NULL'' @ [CHR 0x0A] @
        replicate 10 (CHR '' '')"
  have e: "statement (distinct_request cfg t c) = ?pre @ ''LIMIT 20''"
    by (simp only: distinct_request_def request.select_convs append_assoc)
  show ?thesis by (rule exI [of _ ?pre]) (rule e)
qed

text \<open>
  C7. \<open>detectEnumValues\<close> returns, for the columns of a text type and in their order,
  what \<open>enum_contribution\<close> says: an entry exactly when the probe returned between 2 and 10
  non-null values, with the values sorted. A column of another type contributes nothing.
  Every probe asks for at most 20 rows, in its text and in its options.
\<close>

theorem enum_detection:
  "fst (detectEnumValues env cfg t cols s) =
     Inr (concat (map (enum_contribution env cfg t) (filter is_text_type cols))) \<and>
   (\<forall>ev \<in> set (concat (map (enum_contribution env cfg t) (filter is_text_type cols))).
      sorted (ev_values ev) \<and> 2 \<le> length (ev_values ev) \<and> length (ev_values ev) \<le> 10) \<and>
   (\<forall>c. \<not> is_text_type c \<longrightarrow> fst (detectEnumValues env cfg t [c] s) = Inr []) \<and>
   (\<forall>c result. is_text_type c \<and>
       distinct_out env (distinct_request cfg t (columnName c)) = Inr result \<longrightarrow>
       fst (detectEnumValues env cfg t [c] s) =
         Inr (if 2 \<le> length (non_null result) \<and> length (non_null result) \<le> 10
              then [\<lparr>ev_columnName = columnName c, ev_values = sort (non_null result)\<rparr>]
              else [])) \<and>
   (\<forall>c. maxRows (distinct_request cfg t c) = 20 \<and>
        (\<exists>pre. statement (distinct_request cfg t c) = pre @ ''LIMIT 20''))"
proof (intro conjI allI impI ballI)
  show "fst (detectEnumValues env cfg t cols s) =
     Inr (concat (map (enum_contribution env cfg t) (filter is_text_type cols)))"
    using detectEnumValues_result [of env cfg t cols s] by auto
next
  fix ev
  assume "ev \<in> set (concat (map (enum_contribution env cfg t) (filter is_text_type cols)))"
  then obtain c where "ev \<in> set (enum_contribution env cfg t c)" by auto
  then show "sorted (ev_values ev)" "2 \<le> length (ev_values ev)" "length (ev_values ev) \<le> 10"
    by (auto simp add: enum_contribution_def split: sum.splits if_splits)
next
  fix c
  assume "\<not> is_text_type c"
  then show "fst (detectEnumValues env cfg t [c] s) = Inr []"
    using detectEnumValues_result [of env cfg t "[c]" s] by auto
next
  fix c result
  assume "is_text_type c \<and>
       distinct_out env (distinct_request cfg t (columnName c)) = Inr result"
  then show "fst (detectEnumValues env cfg t [c] s) =
         Inr (if 2 \<le> length (non_null result) \<and> length (non_null result) \<le> 10
              then [\<lparr>ev_columnName = columnName c, ev_values = sort (non_null result)\<rparr>]
              else [])"
    using detectEnumValues_result [of env cfg t "[c]" s]
    by (auto simp add: enum_contribution_def)
next
  fix c
  show "maxRows (distinct_request cfg t c) = 20" by (simp add: distinct_request_def)
  show "\<exists>pre. statement (distinct_request cfg t c) = pre @ ''LIMIT 20''"
    by (rule probe_statement_limit)
qed



section \<open>Properties of the extraction\<close>

lemma store_untouched_refl: "store_untouched s s"
  by (simp add: store_untouched_def)

lemma store_untouched_trans: "store_untouched s s1 \<Longrightarrow> store_untouched s1 s2 \<Longrightarrow> store_untouched s s2"
  by (auto simp add: store_untouched_def)

lemma store_untouched_statement: "store_untouched s (emit (Statement req) s)"
  by (simp add: store_untouched_def emit_def store_mutation_def)

lemma store_untouched_embed: "store_untouched s (emit (Embed c) s)"
  by (simp add: store_untouched_def emit_def store_mutation_def)

lemma getColumns_result:
  "getColumns env cfg t s =
     (map_sum id getColumns_rows (describe_columns_out env (describe_request cfg t)),
      emit (Statement (describe_request cfg t)) s)"
  by (cases "describe_columns_out env (describe_request cfg t)")
     (simp_all add: getColumns_def bind_io_def run_statement_def step_value_def return_io_def)

lemma getPrimaryKeys_result:
  "getPrimaryKeys env cfg t s =
     (Inr (primary_key_signal (tblproperties_out env (tblproperties_request cfg t))),
      emit (Statement (tblproperties_request cfg t)) s)"
  by (cases "tblproperties_out env (tblproperties_request cfg t)")
     (simp_all add: getPrimaryKeys_def bind_io_def try_catch_def run_statement_def
        step_value_def return_io_def primary_key_signal_def)

lemma getForeignKeys_result:
  "getForeignKeys env cfg t s =
     (Inr (foreign_key_signal (describe_foreign_out env (describe_request cfg t))),
      emit (Statement (describe_request cfg t)) s)"
  by (cases "describe_foreign_out env (describe_request cfg t)")
     (simp_all add: getForeignKeys_def bind_io_def try_catch_def run_statement_def
        step_value_def return_io_def foreign_key_signal_def)

lemma detect_loop_store_untouched: "store_untouched s (snd (detect_loop env cfg t cs s))"
proof (induction cs arbitrary: s)
  case Nil
  show ?case by (simp add: return_io_def store_untouched_refl)
next
  case (Cons c cs)
  let ?s1 = "emit (Statement (distinct_request cfg t (columnName c))) s"
  have 1: "store_untouched s ?s1" by (rule store_untouched_statement)
  have 2: "store_untouched ?s1 (snd (detect_loop env cfg t cs ?s1))" by (rule Cons)
  have "snd (detect_loop env cfg t (c # cs) s) = snd (detect_loop env cfg t cs ?s1)"
    by (cases "distinct_out env (distinct_request cfg t (columnName c))";
        cases "detect_loop env cfg t cs ?s1"; cases "fst (detect_loop env cfg t cs ?s1)")
       (simp_all add: bind_io_def try_catch_def return_io_def run_statement_def step_value_def)
  with store_untouched_trans [OF 1 2] show ?case by simp
qed

lemma is_text_type_mark_keys [simp]: "is_text_type (mark_keys pks fks c) = is_text_type c"
  by (simp add: is_text_type_def mark_keys_def)

lemma columnName_mark_keys [simp]: "columnName (mark_keys pks fks c) = columnName c"
  by (simp add: mark_keys_def)

lemma enum_contribution_mark_keys [simp]:
  "enum_contribution env cfg t (mark_keys pks fks c) = enum_contribution env cfg t c"
  unfolding enum_contribution_def columnName_mark_keys by (rule refl)

lemma enum_contributions_marked:
  "concat (map (enum_contribution env cfg t) (filter is_text_type (map (mark_keys pks fks) cols)))
     = concat (map (enum_contribution env cfg t) (filter is_text_type cols))"
  by (induction cols) simp_all

lemma extractTableMetadata_fails:
  assumes "describe_columns_out env (describe_request cfg t) = Inl e"
  shows "fst (extractTableMetadata env cfg t s) = Inl e"
    and "store_untouched s (snd (extractTableMetadata env cfg t s))"
proof -
  let ?s3 = "emit (Statement (describe_request cfg t))
      (emit (Statement (tblproperties_request cfg t))
        (emit (Statement (describe_request cfg t)) s))"
  have r: "extractTableMetadata env cfg t s = (Inl e, ?s3)"
    using assms
    by (simp add: extractTableMetadata_def promise_all3_def bind_io_def getColumns_result
        getPrimaryKeys_result getForeignKeys_result)
  then show "fst (extractTableMetadata env cfg t s) = Inl e" by simp
  have "store_untouched s ?s3"
    by (simp add: store_untouched_def emit_def store_mutation_def)
  with r show "store_untouched s (snd (extractTableMetadata env cfg t s))" by simp
qed

lemma extractTableMetadata_succeeds:
  assumes "describe_columns_out env (describe_request cfg t) = Inr rs"
  shows "fst (extractTableMetadata env cfg t s) = Inr (metadata_of env cfg t rs)"
    and "store_untouched s (snd (extractTableMetadata env cfg t s))"
proof -
  let ?s3 = "emit (Statement (describe_request cfg t))
      (emit (Statement (tblproperties_request cfg t))
        (emit (Statement (describe_request cfg t)) s))"
  let ?pks = "primary_key_signal (tblproperties_out env (tblproperties_request cfg t))"
  let ?fks = "foreign_key_signal (describe_foreign_out env (describe_request cfg t))"
  let ?cols = "map (mark_keys ?pks ?fks) (getColumns_rows rs)"
  obtain s4 where d: "detectEnumValues env cfg t ?cols ?s3 =
       (Inr (concat (map (enum_contribution env cfg t) (filter is_text_type ?cols))), s4)"
    using detectEnumValues_result [of env cfg t ?cols ?s3] by blast
  have r: "extractTableMetadata env cfg t s = (Inr (metadata_of env cfg t rs), s4)"
    using assms d
    by (simp add: extractTableMetadata_def promise_all3_def bind_io_def getColumns_result
        getPrimaryKeys_result getForeignKeys_result return_io_def metadata_of_def Let_def
        enum_contributions_marked)
  then show "fst (extractTableMetadata env cfg t s) = Inr (metadata_of env cfg t rs)" by simp
  have 1: "store_untouched s ?s3"
    by (simp add: store_untouched_def emit_def store_mutation_def)
  have "store_untouched ?s3 (snd (detect_loop env cfg t (candidates ?cols) ?s3))"
    by (rule detect_loop_store_untouched)
  with d have 2: "store_untouched ?s3 s4" by (simp add: detectEnumValues_def)
  from r store_untouched_trans [OF 1 2]
  show "store_untouched s (snd (extractTableMetadata env cfg t s))" by simp
qed

lemma extractTableMetadata_store_untouched:
  "store_untouched s (snd (extractTableMetadata env cfg t s))"
  by (cases "describe_columns_out env (describe_request cfg t)")
     (simp_all add: extractTableMetadata_fails extractTableMetadata_succeeds)


lemma sort_open_closed: "sort [''open'', ''closed''] = [''closed'', ''open'']"
  by code_simp

lemma non_null_example: "non_null [Some ''open'', None, Some ''closed''] = [''open'', ''closed'']"
  by (simp add: non_null_def)

text \<open>A text column with two observed values is recorded, sorted; an \<open>int\<close> column is
  not considered.\<close>

theorem enum_detection_witness:
  "is_text_type status_column \<and> \<not> is_text_type id_column \<and>
   fst (detectEnumValues example_env example_config ''A'' [id_column, status_column] example_state)
     = Inr [\<lparr>ev_columnName = ''status'', ev_values = [''closed'', ''open'']\<rparr>] \<and>
   fst (detectEnumValues example_env example_config ''A'' [id_column] example_state) = Inr [] \<and>
   fst (detectEnumValues example_env example_config ''A'' [status_column] example_state)
     = Inr [\<lparr>ev_columnName = ''status'', ev_values = [''closed'', ''open'']\<rparr>]"
proof -
  have t1: "is_text_type status_column" by (simp add: is_text_type_def status_column_def, code_simp)
  have t2: "\<not> is_text_type id_column" by (simp add: is_text_type_def id_column_def, code_simp)
  have p: "distinct_out example_env (distinct_request example_config ''A'' (columnName status_column))
     = Inr [Some ''open'', None, Some ''closed'']"
    by (simp add: example_env_def)
  have c: "enum_contribution example_env example_config ''A'' status_column =
      [\<lparr>ev_columnName = ''status'', ev_values = [''closed'', ''open'']\<rparr>]"
    by (simp add: enum_contribution_def p non_null_example sort_open_closed)
       (simp add: status_column_def)
  note th = enum_detection [of example_env example_config "''A''" "[id_column, status_column]"
      example_state]
  from th t1 t2 c
  have a: "fst (detectEnumValues example_env example_config ''A'' [id_column, status_column]
      example_state) = Inr [\<lparr>ev_columnName = ''status'', ev_values = [''closed'', ''open'']\<rparr>]"
    by simp
  from th t2
  have b: "fst (detectEnumValues example_env example_config ''A'' [id_column] example_state) = Inr []"
    by blast
  from th t1 p
  have "fst (detectEnumValues example_env example_config ''A'' [status_column] example_state) =
         Inr (if 2 \<le> length (non_null [Some ''open'', None, Some ''closed'']) \<and>
                 length (non_null [Some ''open'', None, Some ''closed'']) \<le> 10
              then [\<lparr>ev_columnName = columnName status_column,
                      ev_values = sort (non_null [Some ''open'', None, Some ''closed''])\<rparr>]
              else [])"
    by blast
  then have d: "fst (detectEnumValues example_env example_config ''A'' [status_column] example_state)
     = Inr [\<lparr>ev_columnName = ''status'', ev_values = [''closed'', ''open'']\<rparr>]"
    by (simp add: non_null_example sort_open_closed status_column_def)
  from t1 t2 a b d show ?thesis by simp
qed


section \<open>Properties of the indexing run\<close>

lemma table_loop_result:
  "fst (table_loop env cfg ts s) = records_of env cfg ts \<and>
   store_untouched s (snd (table_loop env cfg ts s))"
proof (induction ts arbitrary: s)
  case Nil
  show ?case by (simp add: return_io_def store_untouched_refl)
next
  case (Cons t ts)
  obtain r1 s1 where x: "extractTableMetadata env cfg t s = (r1, s1)"
    by (cases "extractTableMetadata env cfg t s") auto
  have u1: "store_untouched s s1"
    using extractTableMetadata_store_untouched [of s env cfg t] x by simp
  show ?case
  proof (cases "describe_columns_out env (describe_request cfg t)")
    case (Inl e)
    then have "r1 = Inl e" using extractTableMetadata_fails(1) [of env cfg t e s] x by simp
    with x Inl u1 show ?thesis by (simp add: bind_io_def record_of_def)
  next
    case (Inr rs)
    then have r1: "r1 = Inr (metadata_of env cfg t rs)"
      using extractTableMetadata_succeeds(1) [of env cfg t rs s] x by simp
    let ?content = "formatTableContent (metadata_of env cfg t rs)"
    let ?s2 = "emit (Embed ?content) s1"
    have u2: "store_untouched s ?s2"
      using store_untouched_trans [OF u1 store_untouched_embed] .
    show ?thesis
    proof (cases "embed_out env ?content")
      case (Inl e)
      with x r1 Inr u2 show ?thesis
        by (simp add: bind_io_def record_of_def step_value_def Let_def)
    next
      case emb: (Inr v)
      obtain r3 s3 where l: "table_loop env cfg ts ?s2 = (r3, s3)"
        by (cases "table_loop env cfg ts ?s2") auto
      from Cons [of ?s2] l have ih: "r3 = records_of env cfg ts" "store_untouched ?s2 s3"
        by simp_all
      have u3: "store_untouched s s3" using store_untouched_trans [OF u2 ih(2)] .
      show ?thesis
      proof (cases r3)
        case (Inl e)
        with ih(1) have ro: "records_of env cfg ts = Inl e" by simp
        from l Inl have l': "table_loop env cfg ts ?s2 = (Inl e, s3)" by simp
        from x r1 Inr emb l' ro u3 show ?thesis
          by (simp add: bind_io_def record_of_def step_value_def Let_def)
      next
        case recs: (Inr more)
        with ih(1) have ro: "records_of env cfg ts = Inr more" by simp
        from l recs have l': "table_loop env cfg ts ?s2 = (Inr more, s3)" by simp
        from x r1 Inr emb l' ro u3 show ?thesis
          by (simp add: bind_io_def record_of_def step_value_def Let_def return_io_def)
      qed
    qed
  qed
qed

lemma records_of_fails:
  assumes "t \<in> set ts" "describe_columns_out env (describe_request cfg t) = Inl e"
  shows "\<exists>e'. records_of env cfg ts = Inl e'"
  using assms(1)
proof (induction ts)
  case Nil
  then show ?case by simp
next
  case (Cons a ts)
  show ?case
  proof (cases "a = t")
    case True
    with assms(2) show ?thesis by (simp add: record_of_def)
  next
    case False
    with Cons obtain e' where "records_of env cfg ts = Inl e'" by auto
    then show ?thesis by (simp split: sum.splits)
  qed
qed

lemma records_of_Inr:
  "records_of env cfg ts = Inr recs \<Longrightarrow>
     map rec_tableName recs = ts \<and>
     (\<forall>r \<in> set recs. \<exists>rs. describe_columns_out env (describe_request cfg (rec_tableName r)) = Inr rs \<and>
        schemaDescription r = formatTableContent (metadata_of env cfg (rec_tableName r) rs))"
proof (induction ts arbitrary: recs)
  case Nil
  then show ?case by simp
next
  case (Cons t ts)
  from Cons.prems obtain r more where
    r: "record_of env cfg t = Inr r" and m: "records_of env cfg ts = Inr more"
    and recs: "recs = r # more"
    by (auto split: sum.splits)
  from r have hd: "rec_tableName r = t \<and>
     (\<exists>rs. describe_columns_out env (describe_request cfg t) = Inr rs \<and>
        schemaDescription r = formatTableContent (metadata_of env cfg t rs))"
    by (auto simp add: record_of_def Let_def split: sum.splits)
  with Cons.IH [OF m] recs show ?case by auto
qed

lemma records_of_succeeds:
  assumes "\<forall>t \<in> set ts. \<exists>rs. describe_columns_out env (describe_request cfg t) = Inr rs"
    and "\<forall>content. \<exists>v. embed_out env content = Inr v"
  shows "\<exists>recs. records_of env cfg ts = Inr recs"
  using assms(1)
proof (induction ts)
  case Nil
  show ?case by simp
next
  case (Cons t ts)
  then obtain rs where rs: "describe_columns_out env (describe_request cfg t) = Inr rs" by auto
  from assms(2) obtain v where
    "embed_out env (formatTableContent (metadata_of env cfg t rs)) = Inr v" by blast
  with rs have "\<exists>r. record_of env cfg t = Inr r" by (simp add: record_of_def Let_def)
  moreover from Cons obtain recs where "records_of env cfg ts = Inr recs" by auto
  ultimately show ?case by auto
qed

lemma insert_loop_ok:
  assumes "\<forall>r. insert_out env r = None"
  shows "insert_loop env recs s =
     (Inr (), s\<lparr>events := events s @ map (\<lambda>r. TransactionInsert (rec_tableName r)) recs\<rparr>)"
proof (induction recs arbitrary: s)
  case Nil
  show ?case by (simp add: return_io_def)
next
  case (Cons r recs)
  from assms have "insert_out env r = None" by simp
  then show ?case
    by (simp add: bind_io_def step_unit_def emit_def Cons)
qed

lemma main_finally_store_untouched: "store_untouched s (snd (main_finally env s))"
  by (cases "wh_session_close_out env"; cases "wh_close_out env"; cases "store_end_out env")
     (simp_all add: main_finally_def bind_io_def step_unit_def emit_def store_untouched_def
        store_mutation_def)

lemma main_try_prefix:
  assumes "wh_connect_out env = None" "wh_openSession_out env = None"
    "store_ping_out env = None" "store_delete_out env = None"
    "show_tables_out env (show_tables_request cfg) = Inr names"
  shows "main_try env cfg s =
     bind_io (table_loop env cfg names) (transaction env) (after_delete cfg s)"
  using assms
  by (simp add: main_try_def bind_io_def step_unit_def delete_all_def getTables_def
      run_statement_def step_value_def emit_def after_delete_def)

lemma main_aborts:
  assumes pre: "wh_connect_out env = None" "wh_openSession_out env = None"
    "store_ping_out env = None" "store_delete_out env = None"
    "show_tables_out env (show_tables_request cfg) = Inr names"
    and t: "t \<in> set names" "describe_columns_out env (describe_request cfg t) = Inl e"
    and ev: "events s = []"
  shows "fst (main env cfg s) = Exited 1"
    and "store (snd (main env cfg s)) = []"
    and "filter store_mutation (events (snd (main env cfg s))) = [StoreDeleteAll]"
proof -
  let ?s5 = "after_delete cfg s"
  obtain s6 where l: "table_loop env cfg names ?s5 = (records_of env cfg names, s6)"
    and u: "store_untouched ?s5 s6"
    using table_loop_result [of env cfg names ?s5]
    by (cases "table_loop env cfg names ?s5") auto
  from records_of_fails [OF t] obtain e' where f: "records_of env cfg names = Inl e'" by blast
  from l f have "main_try env cfg s = (Inl e', s6)"
    by (simp add: main_try_prefix [OF pre] bind_io_def)
  then have m: "main env cfg s = (Exited 1, emit (ProcessExit 1) s6)"
    by (simp add: main_def)
  from u obtain evs where s6: "store s6 = []" "events s6 = events ?s5 @ evs"
    "filter store_mutation evs = []"
    by (auto simp add: store_untouched_def after_delete_def)
  from m show "fst (main env cfg s) = Exited 1" by simp
  from m s6 show "store (snd (main env cfg s)) = []" by (simp add: emit_def)
  from m s6 ev show "filter store_mutation (events (snd (main env cfg s))) = [StoreDeleteAll]"
    by (simp add: emit_def after_delete_def store_mutation_def)
qed

lemma main_rebuilds:
  assumes pre: "wh_connect_out env = None" "wh_openSession_out env = None"
    "store_ping_out env = None" "store_delete_out env = None"
    "show_tables_out env (show_tables_request cfg) = Inr names"
    and ok: "records_of env cfg names = Inr recs"
    and ins: "\<forall>r. insert_out env r = None" "commit_out env = None"
    and ev: "events s = []"
  shows "store (snd (main env cfg s)) = recs"
    and "filter store_mutation (events (snd (main env cfg s))) =
           [StoreDeleteAll, TransactionBegin] @
           map (\<lambda>r. TransactionInsert (rec_tableName r)) recs @ [TransactionCommit]"
    and "fst (main env cfg s) \<noteq> Exited 1"
proof -
  let ?s5 = "after_delete cfg s"
  let ?ins = "map (\<lambda>r. TransactionInsert (rec_tableName r)) recs"
  obtain s6 where l: "table_loop env cfg names ?s5 = (Inr recs, s6)"
    and u: "store_untouched ?s5 s6"
    using table_loop_result [of env cfg names ?s5] ok
    by (cases "table_loop env cfg names ?s5") auto
  from u obtain evs where s6: "store s6 = []" "events s6 = events ?s5 @ evs"
    "filter store_mutation evs = []"
    by (auto simp add: store_untouched_def after_delete_def)
  let ?s7 = "emit TransactionCommit
     ((emit TransactionBegin s6)\<lparr>events := events (emit TransactionBegin s6) @ ?ins,
        store := store s6 @ recs\<rparr>)"
  have tx: "transaction env recs s6 = (Inr (), ?s7)"
    by (simp add: transaction_def insert_loop_ok [OF ins(1)] ins(2) emit_def)
  from l tx have mt: "main_try env cfg s = (Inr (), ?s7)"
    by (simp add: main_try_prefix [OF pre] bind_io_def)
  have f7: "filter store_mutation ?ins = ?ins"
    by (induction recs) (simp_all add: store_mutation_def)
  have st7: "store ?s7 = recs" using s6 by (simp add: emit_def)
  have ev7: "filter store_mutation (events ?s7) =
      [StoreDeleteAll, TransactionBegin] @ ?ins @ [TransactionCommit]"
    using s6 ev f7 by (simp add: emit_def after_delete_def store_mutation_def)
  obtain r8 s8 where fin: "main_finally env ?s7 = (r8, s8)"
    by (cases "main_finally env ?s7") auto
  with main_finally_store_untouched [of ?s7 env] have u8: "store_untouched ?s7 s8" by simp
  then obtain evs8 where s8: "store s8 = store ?s7" "events s8 = events ?s7 @ evs8"
    "filter store_mutation evs8 = []"
    by (auto simp add: store_untouched_def)
  from mt fin have m: "snd (main env cfg s) = s8" "fst (main env cfg s) \<noteq> Exited 1"
    by (cases r8; simp add: main_def)+
  from m s8 st7 show "store (snd (main env cfg s)) = recs" by simp
  from m s8 ev7 show "filter store_mutation (events (snd (main env cfg s))) =
           [StoreDeleteAll, TransactionBegin] @ ?ins @ [TransactionCommit]"
    by simp
  from m show "fst (main env cfg s) \<noteq> Exited 1" by simp
qed

text \<open>
  C6. In a run that reaches the table loop: when the column listing of some table throws,
  the process exits with status 1, the store is empty whatever it held before, and the
  only store call made is the truncate, so no transaction was begun. When every listing
  and embedding succeeds and the inserts and the commit succeed, the store holds one record
  per table name, in order, inserted in one transaction after the truncate.
\<close>

theorem indexing_run_store:
  assumes "wh_connect_out env = None" "wh_openSession_out env = None"
    "store_ping_out env = None" "store_delete_out env = None"
    "show_tables_out env (show_tables_request cfg) = Inr names"
    and "events s = []"
  shows "((\<exists>t e. t \<in> set names \<and> describe_columns_out env (describe_request cfg t) = Inl e) \<longrightarrow>
            fst (main env cfg s) = Exited 1 \<and>
            store (snd (main env cfg s)) = [] \<and>
            filter store_mutation (events (snd (main env cfg s))) = [StoreDeleteAll])
       \<and> ((\<forall>t \<in> set names. \<exists>rs. describe_columns_out env (describe_request cfg t) = Inr rs) \<and>
           (\<forall>content. \<exists>v. embed_out env content = Inr v) \<and>
           (\<forall>r. insert_out env r = None) \<and> commit_out env = None \<longrightarrow>
            map rec_tableName (store (snd (main env cfg s))) = names \<and>
            filter store_mutation (events (snd (main env cfg s))) =
              [StoreDeleteAll, TransactionBegin] @ map TransactionInsert names @
              [TransactionCommit])"
proof (intro conjI impI)
  assume "\<exists>t e. t \<in> set names \<and> describe_columns_out env (describe_request cfg t) = Inl e"
  then obtain t e where t: "t \<in> set names"
    "describe_columns_out env (describe_request cfg t) = Inl e" by blast
  show "fst (main env cfg s) = Exited 1"
    by (rule main_aborts(1) [OF assms(1-5) t assms(6)])
  show "store (snd (main env cfg s)) = []"
    by (rule main_aborts(2) [OF assms(1-5) t assms(6)])
  show "filter store_mutation (events (snd (main env cfg s))) = [StoreDeleteAll]"
    by (rule main_aborts(3) [OF assms(1-5) t assms(6)])
next
  assume ok: "(\<forall>t \<in> set names. \<exists>rs. describe_columns_out env (describe_request cfg t) = Inr rs) \<and>
           (\<forall>content. \<exists>v. embed_out env content = Inr v) \<and>
           (\<forall>r. insert_out env r = None) \<and> commit_out env = None"
  then obtain recs where recs: "records_of env cfg names = Inr recs"
    using records_of_succeeds [of names env cfg] by blast
  then have names: "map rec_tableName recs = names" using records_of_Inr by blast
  from ok have ins: "\<forall>r. insert_out env r = None" "commit_out env = None" by simp_all
  have "store (snd (main env cfg s)) = recs"
    by (rule main_rebuilds(1) [OF assms(1-5) recs ins assms(6)])
  with names show "map rec_tableName (store (snd (main env cfg s))) = names" by simp
  have "filter store_mutation (events (snd (main env cfg s))) =
           [StoreDeleteAll, TransactionBegin] @
           map (\<lambda>r. TransactionInsert (rec_tableName r)) recs @ [TransactionCommit]"
    by (rule main_rebuilds(2) [OF assms(1-5) recs ins assms(6)])
  moreover have "map (\<lambda>r. TransactionInsert (rec_tableName r)) recs = map TransactionInsert names"
  proof -
    have "map TransactionInsert (map rec_tableName recs) =
        map (\<lambda>r. TransactionInsert (rec_tableName r)) recs" by simp
    with names show ?thesis by simp
  qed
  ultimately show "filter store_mutation (events (snd (main env cfg s))) =
              [StoreDeleteAll, TransactionBegin] @ map TransactionInsert names @
              [TransactionCommit]" by simp
qed

text \<open>Over the tables A, B, C: with B failing the earlier record is gone and nothing is
  inserted; with all three succeeding three records are inserted in one transaction.\<close>

theorem indexing_run_store_witness:
  "store example_state \<noteq> [] \<and>
   fst (main failing_env example_config example_state) = Exited 1 \<and>
   store (snd (main failing_env example_config example_state)) = [] \<and>
   filter store_mutation (events (snd (main failing_env example_config example_state)))
     = [StoreDeleteAll] \<and>
   map rec_tableName (store (snd (main example_env example_config example_state)))
     = [''A'', ''B'', ''C''] \<and>
   filter store_mutation (events (snd (main example_env example_config example_state)))
     = [StoreDeleteAll, TransactionBegin, TransactionInsert ''A'', TransactionInsert ''B'',
        TransactionInsert ''C'', TransactionCommit]"
proof -
  have s: "events example_state = []" "store example_state \<noteq> []"
    by (simp_all add: example_state_def)
  have f: "wh_connect_out failing_env = None" "wh_openSession_out failing_env = None"
    "store_ping_out failing_env = None" "store_delete_out failing_env = None"
    "show_tables_out failing_env (show_tables_request example_config) = Inr [''A'', ''B'', ''C'']"
    by (simp_all add: failing_env_def example_env_def)
  have fb: "\<exists>t e. t \<in> set [''A'', ''B'', ''C''] \<and>
      describe_columns_out failing_env (describe_request example_config t) = Inl e"
  proof -
    have "''B'' \<in> set [''A'', ''B'', ''C''] \<and>
      describe_columns_out failing_env (describe_request example_config ''B'')
        = Inl (ErrorObject ''TABLE_OR_VIEW_NOT_FOUND'')"
      by (simp add: failing_env_def)
    then show ?thesis by blast
  qed
  have g: "wh_connect_out example_env = None" "wh_openSession_out example_env = None"
    "store_ping_out example_env = None" "store_delete_out example_env = None"
    "show_tables_out example_env (show_tables_request example_config) = Inr [''A'', ''B'', ''C'']"
    by (simp_all add: example_env_def)
  have gb: "(\<forall>t \<in> set [''A'', ''B'', ''C''].
        \<exists>rs. describe_columns_out example_env (describe_request example_config t) = Inr rs) \<and>
      (\<forall>content. \<exists>v. embed_out example_env content = Inr v) \<and>
      (\<forall>r. insert_out example_env r = None) \<and> commit_out example_env = None"
    by (simp add: example_env_def)
  from indexing_run_store [OF f s(1)] fb
  have a: "fst (main failing_env example_config example_state) = Exited 1 \<and>
      store (snd (main failing_env example_config example_state)) = [] \<and>
      filter store_mutation (events (snd (main failing_env example_config example_state)))
        = [StoreDeleteAll]"
    by blast
  from indexing_run_store [OF g s(1)] gb
  have b: "map rec_tableName (store (snd (main example_env example_config example_state)))
       = [''A'', ''B'', ''C''] \<and>
     filter store_mutation (events (snd (main example_env example_config example_state)))
       = [StoreDeleteAll, TransactionBegin] @ map TransactionInsert [''A'', ''B'', ''C''] @
         [TransactionCommit]"
    by blast
  from s(2) a b show ?thesis by simp
qed

text \<open>
  C9. When the column listing succeeds, \<open>extractTableMetadata\<close> returns a metadata whose
  primary keys depend on the outcome of the property listing only (none when it throws),
  whose foreign keys depend on the outcome of the second catalog dump only (none when it
  throws), and whose enum values are the contributions of the text columns, a column whose
  probe throws contributing nothing. When the column listing throws, the extraction throws
  the same value, and so does the loop over the tables.
\<close>

theorem enrichment_failures_isolated:
  "(\<forall>rs. describe_columns_out env (describe_request cfg t) = Inr rs \<longrightarrow>
      (\<exists>md. fst (extractTableMetadata env cfg t s) = Inr md \<and> tableName md = t \<and>
         primaryKeys md =
           (case tblproperties_out env (tblproperties_request cfg t) of
              Inl _ \<Rightarrow> [] | Inr ps \<Rightarrow> getPrimaryKeys_rows ps) \<and>
         foreignKeys md =
           (case describe_foreign_out env (describe_request cfg t) of
              Inl _ \<Rightarrow> [] | Inr fs \<Rightarrow> getForeignKeys_rows False fs) \<and>
         enumValues md =
           concat (map (enum_contribution env cfg t) (filter is_text_type (getColumns_rows rs))) \<and>
         columns md = map (mark_keys (primaryKeys md) (foreignKeys md)) (getColumns_rows rs)))
   \<and> (\<forall>(c::ColumnInfo) e. distinct_out env (distinct_request cfg t (columnName c)) = Inl e \<longrightarrow>
         enum_contribution env cfg t c = [])
   \<and> (\<forall>e. describe_columns_out env (describe_request cfg t) = Inl e \<longrightarrow>
         fst (extractTableMetadata env cfg t s) = Inl e \<and>
         (\<forall>ts. fst (table_loop env cfg (t # ts) s) = Inl e))"
proof (intro conjI allI impI)
  fix rs
  assume "describe_columns_out env (describe_request cfg t) = Inr rs"
  then have "fst (extractTableMetadata env cfg t s) = Inr (metadata_of env cfg t rs)"
    by (rule extractTableMetadata_succeeds(1))
  then show "\<exists>md. fst (extractTableMetadata env cfg t s) = Inr md \<and> tableName md = t \<and>
         primaryKeys md =
           (case tblproperties_out env (tblproperties_request cfg t) of
              Inl _ \<Rightarrow> [] | Inr ps \<Rightarrow> getPrimaryKeys_rows ps) \<and>
         foreignKeys md =
           (case describe_foreign_out env (describe_request cfg t) of
              Inl _ \<Rightarrow> [] | Inr fs \<Rightarrow> getForeignKeys_rows False fs) \<and>
         enumValues md =
           concat (map (enum_contribution env cfg t) (filter is_text_type (getColumns_rows rs))) \<and>
         columns md = map (mark_keys (primaryKeys md) (foreignKeys md)) (getColumns_rows rs)"
    by (simp add: metadata_of_def Let_def primary_key_signal_def foreign_key_signal_def)
next
  fix c :: ColumnInfo and e
  assume "distinct_out env (distinct_request cfg t (columnName c)) = Inl e"
  then show "enum_contribution env cfg t c = []" by (simp add: enum_contribution_def)
next
  fix e
  assume f: "describe_columns_out env (describe_request cfg t) = Inl e"
  then show "fst (extractTableMetadata env cfg t s) = Inl e"
    by (rule extractTableMetadata_fails(1))
  fix ts
  from f have "records_of env cfg (t # ts) = Inl e" by (simp add: record_of_def)
  then show "fst (table_loop env cfg (t # ts) s) = Inl e"
    using table_loop_result [of env cfg "t # ts" s] by simp
qed

lemma example_columns:
  "getColumns_rows example_rows =
     [\<lparr>columnName = ''id'', dataType = ''int'', isNullable = True,
        isPrimaryKey = False, isForeignKey = False\<rparr>,
      \<lparr>columnName = ''status'', dataType = ''STRING'', isNullable = True,
        isPrimaryKey = False, isForeignKey = False\<rparr>,
      \<lparr>columnName = ''owner'', dataType = ''bigint'', isNullable = True,
        isPrimaryKey = False, isForeignKey = False\<rparr>]"
  by code_simp

lemma example_foreign_keys:
  "getForeignKeys_rows False example_rows =
     [\<lparr>fk_columnName = ''owner'', referencedTable = ''users'', referencedColumn = ''id''\<rparr>]"
  by code_simp

lemma example_text_columns:
  "filter is_text_type (getColumns_rows example_rows) = [status_column]"
  unfolding example_columns status_column_def is_text_type_def by code_simp

text \<open>A failing primary-key probe leaves the foreign keys and the enum values in place; a
  failing enum probe records nothing; a failing column listing fails the table.\<close>

theorem enrichment_failures_isolated_witness:
  "(\<exists>md. fst (extractTableMetadata degraded_env example_config ''A'' example_state) = Inr md \<and>
      primaryKeys md = [] \<and>
      foreignKeys md =
        [\<lparr>fk_columnName = ''owner'', referencedTable = ''users'', referencedColumn = ''id''\<rparr>] \<and>
      enumValues md = [\<lparr>ev_columnName = ''status'', ev_values = [''closed'', ''open'']\<rparr>] \<and>
      map columnName (columns md) = [''id'', ''status'', ''owner'']) \<and>
   enum_contribution unprobed_env example_config ''A'' status_column = [] \<and>
   fst (extractTableMetadata failing_env example_config ''B'' example_state)
     = Inl (ErrorObject ''TABLE_OR_VIEW_NOT_FOUND'') \<and>
   fst (table_loop failing_env example_config [''B'', ''C''] example_state)
     = Inl (ErrorObject ''TABLE_OR_VIEW_NOT_FOUND'')"
proof -
  note th1 = enrichment_failures_isolated [of degraded_env example_config "''A''" example_state]
  have d: "describe_columns_out degraded_env (describe_request example_config ''A'')
      = Inr example_rows"
    by (simp add: degraded_env_def example_env_def)
  have p: "distinct_out degraded_env (distinct_request example_config ''A'' (columnName status_column))
     = Inr [Some ''open'', None, Some ''closed'']"
    by (simp add: degraded_env_def example_env_def)
  have c: "enum_contribution degraded_env example_config ''A'' status_column =
      [\<lparr>ev_columnName = ''status'', ev_values = [''closed'', ''open'']\<rparr>]"
    by (simp add: enum_contribution_def p non_null_example sort_open_closed)
       (simp add: status_column_def)
  from th1 d obtain md where md:
    "fst (extractTableMetadata degraded_env example_config ''A'' example_state) = Inr md"
    "primaryKeys md =
       (case tblproperties_out degraded_env (tblproperties_request example_config ''A'') of
          Inl _ \<Rightarrow> [] | Inr ps \<Rightarrow> getPrimaryKeys_rows ps)"
    "foreignKeys md =
       (case describe_foreign_out degraded_env (describe_request example_config ''A'') of
          Inl _ \<Rightarrow> [] | Inr fs \<Rightarrow> getForeignKeys_rows False fs)"
    "enumValues md =
       concat (map (enum_contribution degraded_env example_config ''A'')
         (filter is_text_type (getColumns_rows example_rows)))"
    "columns md = map (mark_keys (primaryKeys md) (foreignKeys md)) (getColumns_rows example_rows)"
    by blast
  have pk: "primaryKeys md = []" using md(2) by (simp add: degraded_env_def)
  have fk: "foreignKeys md =
        [\<lparr>fk_columnName = ''owner'', referencedTable = ''users'', referencedColumn = ''id''\<rparr>]"
    using md(3) by (simp add: degraded_env_def example_env_def example_foreign_keys)
  have ev: "enumValues md = [\<lparr>ev_columnName = ''status'', ev_values = [''closed'', ''open'']\<rparr>]"
    using md(4) by (simp add: example_text_columns c)
  have cn: "map columnName (columns md) = [''id'', ''status'', ''owner'']"
    using md(5) by (simp add: example_columns)
  have u: "distinct_out unprobed_env (distinct_request example_config ''A'' (columnName status_column))
     = Inl OtherValue"
    by (simp add: unprobed_env_def)
  from enrichment_failures_isolated [of unprobed_env example_config "''A''" example_state] u
  have e0: "enum_contribution unprobed_env example_config ''A'' status_column = []" by blast
  have f: "describe_columns_out failing_env (describe_request example_config ''B'')
      = Inl (ErrorObject ''TABLE_OR_VIEW_NOT_FOUND'')"
    by (simp add: failing_env_def)
  from enrichment_failures_isolated [of failing_env example_config "''B''" example_state] f
  have x: "fst (extractTableMetadata failing_env example_config ''B'' example_state)
     = Inl (ErrorObject ''TABLE_OR_VIEW_NOT_FOUND'')"
    "fst (table_loop failing_env example_config [''B'', ''C''] example_state)
     = Inl (ErrorObject ''TABLE_OR_VIEW_NOT_FOUND'')"
    by blast+
  have m: "\<exists>md. fst (extractTableMetadata degraded_env example_config ''A'' example_state)
        = Inr md \<and>
      primaryKeys md = [] \<and>
      foreignKeys md =
        [\<lparr>fk_columnName = ''owner'', referencedTable = ''users'', referencedColumn = ''id''\<rparr>] \<and>
      enumValues md = [\<lparr>ev_columnName = ''status'', ev_values = [''closed'', ''open'']\<rparr>] \<and>
      map columnName (columns md) = [''id'', ''status'', ''owner'']"
    by (intro exI [of _ md] conjI) (fact md(1) pk fk ev cn)+
  show ?thesis
    by (intro conjI) (fact m e0 x)+
qed






end
